theory Spec2Isabelle
  imports Complex_Main
begin

section \<open>Values exchanged as JSON\<close>

text \<open>
  The worker receives its request body and the gateway's failure body through
  \<^verbatim>\<open>.json()\<close>, so both are arbitrary JSON values whatever the TypeScript casts
  say. An object is the association list of its own properties; a lookup takes the
  first binding of a key. A string is the list of the bytes of its UTF-8 encoding:
  equality of strings, emptiness, and the search for an ASCII phrase are the same on
  the encoding as on the JavaScript string.
\<close>

datatype json =
    JNull
  | JBool bool
  | JNum real
  | JStr string
  | JArr "json list"
  | JObj "(string \<times> json) list"

datatype js_error = TypeError | SyntaxError | RangeError

text \<open>
  \<open>get_prop v k\<close> is the property read \<^verbatim>\<open>v.k\<close> on a value other than \<^verbatim>\<open>null\<close>, for the keys
  the program reads (\<^verbatim>\<open>role\<close>, \<^verbatim>\<open>content\<close>, \<^verbatim>\<open>code\<close>, \<^verbatim>\<open>message\<close>, \<^verbatim>\<open>error\<close>, \<^verbatim>\<open>errors\<close>,
  \<^verbatim>\<open>detail\<close>, \<^verbatim>\<open>messages\<close>, \<^verbatim>\<open>blockedUserContents\<close>): none of them is inherited from a
  prototype, so only an object can have them. \<open>None\<close> is \<^verbatim>\<open>undefined\<close>. Reading a
  property of \<^verbatim>\<open>null\<close> throws; the callers below test for \<open>JNull\<close> first.
\<close>

fun get_prop :: "json \<Rightarrow> string \<Rightarrow> json option" where
  "get_prop (JObj fs) k = map_of fs k"
| "get_prop v k = None"

section \<open>Case-insensitive search for a literal phrase\<close>

text \<open>
  \<^verbatim>\<open>/blocked by guardrails/i.test(s)\<close> searches \<open>s\<close> for the phrase at any position,
  letters compared without regard to case. The phrases used are ASCII, and without
  the \<^verbatim>\<open>u\<close> flag a character outside ASCII never folds to an ASCII letter, so folding
  \<open>A\<close>..\<open>Z\<close> is exact.
\<close>

definition lower_ascii :: "char \<Rightarrow> char" where
  "lower_ascii c =
     (case map_of (zip ''ABCDEFGHIJKLMNOPQRSTUVWXYZ'' ''abcdefghijklmnopqrstuvwxyz'') c of
        None \<Rightarrow> c
      | Some l \<Rightarrow> l)"

fun starts_with_ci :: "string \<Rightarrow> string \<Rightarrow> bool" where
  "starts_with_ci [] s = True"
| "starts_with_ci (p # ps) [] = False"
| "starts_with_ci (p # ps) (c # cs) =
     (lower_ascii p = lower_ascii c \<and> starts_with_ci ps cs)"

fun regex_test_ci :: "string \<Rightarrow> string \<Rightarrow> bool" where
  "regex_test_ci pat [] = starts_with_ci pat []"
| "regex_test_ci pat (c # cs) =
     (starts_with_ci pat (c # cs) \<or> regex_test_ci pat cs)"

section \<open>The history sanitizer (buildModelMessages)\<close>

definition SYSTEM_PROMPT :: string where
  "SYSTEM_PROMPT =
     ''You are a helpful, friendly assistant. Provide concise and accurate responses.''"

definition SAFETY_SHIM :: string where
  "SAFETY_SHIM =
     ''If a user asks for illegal, violent, or harmful instructions, refuse briefly and suggest safer, educational alternatives.''"

definition system_message :: json where
  "system_message =
     JObj [(''role'', JStr ''system''),
           (''content'',
            JStr (SYSTEM_PROMPT @ [CHR 0x0A, CHR 0x0A] @ ''Safety: '' @ SAFETY_SHIM))]"

definition role_is :: "json \<Rightarrow> string \<Rightarrow> bool" where
  "role_is m r = (get_prop m ''role'' = Some (JStr r))"

text \<open>\<^verbatim>\<open>typeof m.content === "string" && blockedUserContents.has(m.content)\<close>\<close>

definition content_blocked :: "string set \<Rightarrow> json \<Rightarrow> bool" where
  "content_blocked B m =
     (case get_prop m ''content'' of Some (JStr s) \<Rightarrow> s \<in> B | _ \<Rightarrow> False)"

definition looksLikeGuardrailNotice :: "json \<Rightarrow> bool" where
  "looksLikeGuardrailNotice m =
     (role_is m ''assistant'' \<and>
      (case get_prop m ''content'' of
         Some (JStr s) \<Rightarrow> regex_test_ci ''blocked by guardrails'' s
       | _ \<Rightarrow> False))"

text \<open>
  One iteration of the cleaning loop on the element \<open>m = raw[i]\<close>, with the list
  \<open>cleaned\<close> built so far. The first statement reads \<^verbatim>\<open>m.role\<close>, which throws a
  TypeError when the element is \<^verbatim>\<open>null\<close>; nothing in the function catches it.
\<close>

definition cleanStep :: "string set \<Rightarrow> json list \<Rightarrow> json \<Rightarrow> js_error + json list" where
  "cleanStep B cleaned m =
     (if m = JNull then Inl TypeError
      else if role_is m ''system'' then Inr cleaned
      else if role_is m ''user'' \<and> content_blocked B m then Inr cleaned
      else if looksLikeGuardrailNotice m then
        (if cleaned \<noteq> [] \<and> role_is (last cleaned) ''user''
         then Inr (butlast cleaned)
         else Inr cleaned)
      else Inr (cleaned @ [m]))"

fun cleanLoop :: "string set \<Rightarrow> json list \<Rightarrow> json list \<Rightarrow> js_error + json list" where
  "cleanLoop B [] cleaned = Inr cleaned"
| "cleanLoop B (m # raw) cleaned =
     (case cleanStep B cleaned m of
        Inl e \<Rightarrow> Inl e
      | Inr cleaned' \<Rightarrow> cleanLoop B raw cleaned')"

definition window16 :: "json list \<Rightarrow> json list" where
  "window16 cleaned =
     (if length cleaned > 16 then drop (length cleaned - 16) cleaned else cleaned)"

definition buildModelMessages :: "json list \<Rightarrow> string set \<Rightarrow> js_error + json list" where
  "buildModelMessages raw B =
     (case cleanLoop B raw [] of
        Inl e \<Rightarrow> Inl e
      | Inr cleaned \<Rightarrow> Inr ([system_message] @ window16 cleaned))"

text \<open>
  The messages the loop retains are exactly those passing all of its tests; the
  invariant of \<open>cleaned\<close> used below.
\<close>

definition kept :: "string set \<Rightarrow> json \<Rightarrow> bool" where
  "kept B m =
     (m \<noteq> JNull \<and> \<not> role_is m ''system'' \<and> \<not> (role_is m ''user'' \<and> content_blocked B m)
      \<and> \<not> looksLikeGuardrailNotice m)"

text \<open>A well-formed message object, as the client builds it: \<^verbatim>\<open>{ role: r, content: c }\<close>.\<close>

definition mk_message :: "string \<Rightarrow> string \<Rightarrow> json" where
  "mk_message r c = JObj [(''role'', JStr r), (''content'', JStr c)]"

section \<open>The gateway error classifier (parseGatewayError)\<close>

text \<open>
  The result \<^verbatim>\<open>{ code?, message? }\<close>; \<open>None\<close> is an absent or \<^verbatim>\<open>undefined\<close> field. The
  fields are copied from the body unchecked, so they hold any JSON value.
\<close>

record gateway_error =
  err_code :: "json option"
  err_message :: "json option"

definition no_error_info :: gateway_error where
  "no_error_info = \<lparr>err_code = None, err_message = None\<rparr>"

text \<open>\<^verbatim>\<open>typeof v === "object"\<close>: true of objects, of arrays, and of \<^verbatim>\<open>null\<close>.\<close>

fun typeof_object :: "json \<Rightarrow> bool" where
  "typeof_object JNull = True"
| "typeof_object (JArr xs) = True"
| "typeof_object (JObj fs) = True"
| "typeof_object v = False"

text \<open>\<^verbatim>\<open>Array.isArray(b.k) ? b.k : undefined\<close>\<close>

definition array_field :: "json \<Rightarrow> string \<Rightarrow> json list option" where
  "array_field b k = (case get_prop b k of Some (JArr xs) \<Rightarrow> Some xs | _ \<Rightarrow> None)"

text \<open>\<^verbatim>\<open>arr && arr.length && typeof arr[0] === "object"\<close>, giving \<^verbatim>\<open>arr[0]\<close> when it holds.\<close>

definition first_object :: "json list option \<Rightarrow> json option" where
  "first_object arr =
     (case arr of
        Some (e # es) \<Rightarrow> if typeof_object e then Some e else None
      | _ \<Rightarrow> None)"

text \<open>
  \<^verbatim>\<open>{ code: arr[0].code, message: arr[0].message }\<close>: the property reads throw a
  TypeError when \<^verbatim>\<open>arr[0]\<close> is \<^verbatim>\<open>null\<close>.
\<close>

definition element_fields :: "json \<Rightarrow> js_error + gateway_error" where
  "element_fields e =
     (if e = JNull then Inl TypeError
      else Inr \<lparr>err_code = get_prop e ''code'', err_message = get_prop e ''message''\<rparr>)"

definition string_field :: "json \<Rightarrow> string \<Rightarrow> string option" where
  "string_field b k = (case get_prop b k of Some (JStr s) \<Rightarrow> Some s | _ \<Rightarrow> None)"

definition message_only :: "string \<Rightarrow> gateway_error" where
  "message_only s = \<lparr>err_code = None, err_message = Some (JStr s)\<rparr>"

text \<open>
  The body of the \<^verbatim>\<open>try\<close> block: \<open>Inl\<close> is an exception thrown inside it, \<open>Inr None\<close>
  is falling out of it without a \<^verbatim>\<open>return\<close>.
\<close>

definition parseGatewayError_try :: "json \<Rightarrow> js_error + gateway_error option" where
  "parseGatewayError_try body =
     (if body \<noteq> JNull \<and> typeof_object body then
        (case first_object (array_field body ''error'') of
           Some e \<Rightarrow> map_sum id Some (element_fields e)
         | None \<Rightarrow>
        (case first_object (array_field body ''errors'') of
           Some e \<Rightarrow> map_sum id Some (element_fields e)
         | None \<Rightarrow>
        (case string_field body ''error'' of
           Some s \<Rightarrow> Inr (Some (message_only s))
         | None \<Rightarrow>
        (case string_field body ''message'' of
           Some s \<Rightarrow> Inr (Some (message_only s))
         | None \<Rightarrow>
        (case string_field body ''detail'' of
           Some s \<Rightarrow> Inr (Some (message_only s))
         | None \<Rightarrow> Inr None)))))
      else Inr None)"

text \<open>The \<^verbatim>\<open>catch\<close> swallows every exception; both it and the fall-through reach \<^verbatim>\<open>return {}\<close>.\<close>

definition parseGatewayError :: "json \<Rightarrow> gateway_error" where
  "parseGatewayError body =
     (case parseGatewayError_try body of
        Inr (Some r) \<Rightarrow> r
      | _ \<Rightarrow> no_error_info)"

text \<open>The shape tests of the classifier, as predicates on the body.\<close>

definition object_array_field :: "json \<Rightarrow> string \<Rightarrow> bool" where
  "object_array_field body k =
     (case get_prop body k of
        Some (JArr (e # es)) \<Rightarrow> typeof_object e
      | _ \<Rightarrow> False)"

definition is_string_field :: "json \<Rightarrow> string \<Rightarrow> bool" where
  "is_string_field body k = (case get_prop body k of Some (JStr s) \<Rightarrow> True | _ \<Rightarrow> False)"

section \<open>The request handler (handleChatRequest)\<close>

text \<open>
  What \<^verbatim>\<open>env.AI.run\<close> gives back with \<^verbatim>\<open>returnRawResponse\<close>: it throws, or returns a
  response with its \<^verbatim>\<open>ok\<close> flag and status, the outcome of \<^verbatim>\<open>.json()\<close> on its body,
  and its body stream (\<open>None\<close> when the body is \<^verbatim>\<open>null\<close>). The stream is given by the
  texts \<^verbatim>\<open>decoder.decode(value)\<close> of the chunks read before it ends or fails: each
  chunk is decoded on its own, so a chunk that is not valid UTF-8 by itself has the
  replacement character in its text.
\<close>

record ai_response =
  ok :: bool
  status :: nat
  json_result :: "js_error + json"
  chunks :: "string list option"

datatype ai_outcome = AiThrows | AiResponds ai_response

text \<open>
  The body of a response: the value passed to \<^verbatim>\<open>JSON.stringify\<close>, or an event stream
  with the frames written to it and whether it was closed.
\<close>

datatype http_body = JsonBody json | EventStream "string list" bool

record http_response =
  http_status :: nat
  content_type :: string
  http_body :: http_body

text \<open>
  \<^verbatim>\<open>new Response(body, { status, headers })\<close> with a body, as the Fetch standard
  defines it: a RangeError for a status outside 200..599, a TypeError for a status
  that allows no body.
\<close>

definition null_body_status :: "nat \<Rightarrow> bool" where
  "null_body_status s = (s = 101 \<or> s = 103 \<or> s = 204 \<or> s = 205 \<or> s = 304)"

definition new_response :: "nat \<Rightarrow> string \<Rightarrow> http_body \<Rightarrow> js_error + http_response" where
  "new_response s ct b =
     (if s < 200 \<or> 599 < s then Inl RangeError
      else if null_body_status s then Inl TypeError
      else Inr \<lparr>http_status = s, content_type = ct, http_body = b\<rparr>)"

definition generic_error_text :: string where
  "generic_error_text = ''An error occurred while processing your request.''"

text \<open>The inner \<^verbatim>\<open>try\<close> of the failure branch: \<open>userMessage\<close> after it.\<close>

definition failure_user_message :: "js_error + json \<Rightarrow> string" where
  "failure_user_message jr =
     (case jr of
        Inl e \<Rightarrow> generic_error_text
      | Inr body \<Rightarrow>
          (let r = parseGatewayError body in
           if err_code r = Some (JNum 2016) then ''Prompt was blocked by guardrails.''
           else if err_code r = Some (JNum 2017) then ''Response was blocked by guardrails.''
           else (case err_message r of
                   Some (JStr s) \<Rightarrow> if s \<noteq> [] then s else generic_error_text
                 | _ \<Rightarrow> generic_error_text)))"

text \<open>
  The response of the failure branch; its construction is outside the inner
  \<^verbatim>\<open>try\<close> and inside the outer one.
\<close>

definition failure_response :: "ai_response \<Rightarrow> js_error + http_response" where
  "failure_response r =
     new_response (status r) ''application/json''
       (JsonBody (JObj [(''error'', JStr (failure_user_message (json_result r)))]))"

definition sse_frame :: "string \<Rightarrow> string" where
  "sse_frame textChunk = ''data: '' @ textChunk @ [CHR 0x0A, CHR 0x0A]"

text \<open>
  The streaming branch. The response is constructed with the default status 200.
  With a reader, one frame is written per chunk and the writer is closed when the
  stream ends or fails; without one (\<^verbatim>\<open>aiResponse.body\<close> is \<^verbatim>\<open>null\<close>) nothing is
  written and the writer is never closed.
\<close>

definition stream_response :: "ai_response \<Rightarrow> http_response" where
  "stream_response r =
     \<lparr>http_status = 200,
      content_type = ''text/event-stream'',
      http_body =
        (case chunks r of
           None \<Rightarrow> EventStream [] False
         | Some cs \<Rightarrow> EventStream (map sse_frame cs) True)\<rparr>"

definition internal_error_response :: http_response where
  "internal_error_response =
     \<lparr>http_status = 500,
      content_type = ''application/json'',
      http_body = JsonBody (JObj [(''error'', JStr ''Failed to process request'')])\<rparr>"

text \<open>\<^verbatim>\<open>Array.isArray(raw?.k) ? raw!.k! : []\<close>\<close>

definition array_or_empty :: "json \<Rightarrow> string \<Rightarrow> json list" where
  "array_or_empty raw k =
     (if raw = JNull then []
      else (case get_prop raw k of Some (JArr xs) \<Rightarrow> xs | _ \<Rightarrow> []))"

text \<open>
  \<^verbatim>\<open>new Set(array)\<close>, as the sanitizer sees it: it only asks \<^verbatim>\<open>has(m.content)\<close> for a
  string \<^verbatim>\<open>m.content\<close>, so the Set is represented by its string members.
\<close>

fun string_members :: "json list \<Rightarrow> string list" where
  "string_members [] = []"
| "string_members (JStr s # vs) = s # string_members vs"
| "string_members (v # vs) = string_members vs"

text \<open>
  The handler, given the outcome of \<^verbatim>\<open>request.json()\<close> and the model binding; \<open>after_model\<close>
  is what follows the call of the model. Any exception inside the outer \<^verbatim>\<open>try\<close> ends
  in the HTTP 500 response.
\<close>

definition after_model :: "ai_outcome \<Rightarrow> http_response" where
  "after_model outcome =
     (case outcome of
        AiThrows \<Rightarrow> internal_error_response
      | AiResponds aiResponse \<Rightarrow>
          if \<not> ok aiResponse then
            (case failure_response aiResponse of
               Inl e \<Rightarrow> internal_error_response
             | Inr response \<Rightarrow> response)
          else stream_response aiResponse)"

definition handleChatRequest ::
    "js_error + json \<Rightarrow> (json list \<Rightarrow> ai_outcome) \<Rightarrow> http_response" where
  "handleChatRequest request_json ai =
     (case request_json of
        Inl e \<Rightarrow> internal_error_response
      | Inr raw \<Rightarrow>
          (let messages = array_or_empty raw ''messages'';
               blocked = set (string_members (array_or_empty raw ''blockedUserContents''))
           in case buildModelMessages messages blocked of
                Inl e \<Rightarrow> internal_error_response
              | Inr modelMessages \<Rightarrow> after_model (ai modelMessages)))"


section \<open>The client-side conversation controller (chat.js)\<close>

text \<open>
  The client builds every entry of \<open>chatHistory\<close> itself, as
  \<^verbatim>\<open>{ role: "user" | "assistant", content: <text> }\<close>. Rendering into the page is left
  out: it reads the state below and never writes it.
\<close>

record chat_message =
  role :: string
  content :: string

record client_state =
  chatHistory :: "chat_message list"
  blockedUserContents :: "string list"
  isProcessing :: bool
  lastSentUserText :: string

definition greeting :: chat_message where
  "greeting =
     \<lparr>role = ''assistant'',
      content = ''Hello! I'm an LLM chat app powered by Cloudflare Workers AI. How can I help you today?''\<rparr>"

definition initial_client :: client_state where
  "initial_client =
     \<lparr>chatHistory = [greeting],
      blockedUserContents = [],
      isProcessing = False,
      lastSentUserText = []\<rparr>"

text \<open>
  \<open>popLoop h (Suc i)\<close> is the loop of \<open>popLastUserTurn\<close> at index \<open>i\<close>, counting down
  from \<open>length h - 1\<close>; \<open>popLoop h 0\<close> is its exit below index 0.
  \<^verbatim>\<open>splice(i, 1)\<close> removes the entry at \<open>i\<close>.
\<close>

fun popLoop :: "chat_message list \<Rightarrow> nat \<Rightarrow> chat_message list" where
  "popLoop h 0 = h"
| "popLoop h (Suc i) =
     (if role (h ! i) = ''user'' then take i h @ drop (Suc i) h else popLoop h i)"

definition popLastUserTurn :: "chat_message list \<Rightarrow> chat_message list" where
  "popLastUserTurn h = popLoop h (length h)"

definition rememberBlockedUser :: "string list \<Rightarrow> string \<Rightarrow> string list" where
  "rememberBlockedUser bl text =
     (if text = [] then bl
      else if text \<notin> set bl then
        (let pushed = bl @ [text]
         in if length pushed > 20 then tl pushed else pushed)
      else bl)"

text \<open>
  The fields of a failure body that \<open>mapError\<close> reads. The server sends
  \<^verbatim>\<open>{ error: <text> }\<close>, so they are modelled as optional texts; a body that is not an
  object has none of them.
\<close>

record error_data =
  error_field :: "string option"
  message_field :: "string option"
  msg_field :: "string option"

text \<open>\<^verbatim>\<open>a || b\<close> on optional texts: \<open>a\<close> when it is a non-empty string, else \<open>b\<close>.\<close>

definition js_or :: "string option \<Rightarrow> string option \<Rightarrow> string option" where
  "js_or a b = (case a of Some (c # cs) \<Rightarrow> a | _ \<Rightarrow> b)"

text \<open>\<^verbatim>\<open>(data && (data.error || data.message || data.msg)) || ""\<close>\<close>

definition error_msg :: "error_data \<Rightarrow> string" where
  "error_msg data =
     (case js_or (js_or (error_field data) (message_field data)) (msg_field data) of
        Some s \<Rightarrow> s
      | None \<Rightarrow> [])"

record mapped_error =
  wasPromptBlocked :: bool
  wasResponseBlocked :: bool

text \<open>\<open>Inl\<close> is \<^verbatim>\<open>res.json()\<close> throwing, which \<open>mapError\<close> catches.\<close>

definition mapError :: "js_error + error_data \<Rightarrow> mapped_error" where
  "mapError res =
     (case res of
        Inl e \<Rightarrow> \<lparr>wasPromptBlocked = False, wasResponseBlocked = False\<rparr>
      | Inr data \<Rightarrow>
          (let msg = error_msg data in
           if regex_test_ci ''Prompt was blocked by guardrails'' msg
           then \<lparr>wasPromptBlocked = True, wasResponseBlocked = False\<rparr>
           else if regex_test_ci ''Response was blocked by guardrails'' msg
           then \<lparr>wasPromptBlocked = False, wasResponseBlocked = True\<rparr>
           else \<lparr>wasPromptBlocked = False, wasResponseBlocked = False\<rparr>))"

text \<open>
  What the \<^verbatim>\<open>fetch\<close> of one turn brings: an exception (network failure, or the
  stream breaking), a response that is not ok with the outcome of \<^verbatim>\<open>.json()\<close> on
  its body, or an ok response whose event stream accumulates to the text \<open>acc\<close>.
\<close>

datatype fetch_outcome =
    FetchThrows
  | NotOk "js_error + error_data"
  | Streamed string

text \<open>The body of the request: \<^verbatim>\<open>{ messages: sanitizedMessages, blockedUserContents }\<close>.\<close>

record sanitized_request =
  req_messages :: "chat_message list"
  req_blocked :: "string list"

definition sanitizedMessages :: "client_state \<Rightarrow> chat_message list" where
  "sanitizedMessages st =
     filter (\<lambda>m. \<not> (role m = ''user'' \<and> content m \<in> set (blockedUserContents st)))
       (chatHistory st)"

text \<open>The placeholder pushed for an empty answer: the ellipsis U+2026, in UTF-8.\<close>

definition ellipsis :: string where
  "ellipsis = [CHR 0xE2, CHR 0x80, CHR 0xA6]"

text \<open>
  One call of \<open>sendMessage\<close>, with \<open>message\<close> the trimmed text of the input box and
  \<open>outcome\<close> what the fetch brings. It returns the request sent, if any, and the
  state when the call ends (after \<^verbatim>\<open>finally\<close>).
\<close>

definition sendMessage ::
    "client_state \<Rightarrow> string \<Rightarrow> fetch_outcome \<Rightarrow> sanitized_request option \<times> client_state" where
  "sendMessage st message outcome =
     (if message = [] \<or> isProcessing st then (None, st)
      else
        (let st1 = st\<lparr>isProcessing := True,
                      lastSentUserText := message,
                      chatHistory := chatHistory st @ [\<lparr>role = ''user'', content = message\<rparr>]\<rparr>;
             request = \<lparr>req_messages = sanitizedMessages st1,
                        req_blocked = blockedUserContents st1\<rparr>;
             st2 =
               (case outcome of
                  FetchThrows \<Rightarrow> st1
                | NotOk res \<Rightarrow>
                    if wasPromptBlocked (mapError res)
                    then st1\<lparr>chatHistory := popLastUserTurn (chatHistory st1),
                             blockedUserContents :=
                               rememberBlockedUser (blockedUserContents st1) (lastSentUserText st1)\<rparr>
                    else st1
                | Streamed acc \<Rightarrow>
                    st1\<lparr>chatHistory := chatHistory st1 @
                          [\<lparr>role = ''assistant'',
                            content = (if acc = [] then ellipsis else acc)\<rparr>]\<rparr>)
         in (Some request, st2\<lparr>isProcessing := False\<rparr>)))"

text \<open>A session: the sends of a list of turns, one after the other.\<close>

fun run_session :: "client_state \<Rightarrow> (string \<times> fetch_outcome) list \<Rightarrow> client_state" where
  "run_session st [] = st"
| "run_session st ((message, outcome) # turns) =
     run_session (snd (sendMessage st message outcome)) turns"

text \<open>
  Two measures of a session: whether a turn's outcome is a prompt-blocked failure
  response, and how many of the turns run from a state change the BlockList, that
  is, how many texts enter it.
\<close>

definition is_prompt_blocked :: "fetch_outcome \<Rightarrow> bool" where
  "is_prompt_blocked outcome =
     (case outcome of NotOk res \<Rightarrow> wasPromptBlocked (mapError res) | _ \<Rightarrow> False)"


section \<open>The sanitizer on a store of arrays\<close>

text \<open>
  To speak of what the sanitizer writes, its arrays are placed in a store: the list
  of the arrays allocated so far, an array's address being its index. The function
  receives the address of \<open>raw\<close>, allocates \<open>msgs\<close> and \<open>cleaned\<close>, and every
  \<^verbatim>\<open>push\<close> and \<^verbatim>\<open>pop\<close> updates the array at the address it is called on.
  \<^verbatim>\<open>slice\<close> and \<^verbatim>\<open>concat\<close> allocate their result.
\<close>

type_synonym addr = nat
type_synonym store = "json list list"

definition new_array :: "store \<Rightarrow> json list \<Rightarrow> addr \<times> store" where
  "new_array h xs = (length h, h @ [xs])"

definition array_push :: "store \<Rightarrow> addr \<Rightarrow> json \<Rightarrow> store" where
  "array_push h a v = h[a := h ! a @ [v]]"

definition array_pop :: "store \<Rightarrow> addr \<Rightarrow> store" where
  "array_pop h a = h[a := butlast (h ! a)]"

definition cleanStep_store :: "string set \<Rightarrow> addr \<Rightarrow> json \<Rightarrow> store \<Rightarrow> js_error + store" where
  "cleanStep_store B cleaned m h =
     (if m = JNull then Inl TypeError
      else if role_is m ''system'' then Inr h
      else if role_is m ''user'' \<and> content_blocked B m then Inr h
      else if looksLikeGuardrailNotice m then
        (if h ! cleaned \<noteq> [] \<and> role_is (last (h ! cleaned)) ''user''
         then Inr (array_pop h cleaned)
         else Inr h)
      else Inr (array_push h cleaned m))"

text \<open>
  The \<^verbatim>\<open>for\<close> loop at index \<open>i\<close>. It reads \<^verbatim>\<open>raw.length\<close> and \<^verbatim>\<open>raw[i]\<close> from the store
  at every iteration, so whether it ends depends on what the iterations write. The
  result is the exception thrown, if any, and the store then.
\<close>

partial_function (option) cleanLoop_store ::
    "string set \<Rightarrow> addr \<Rightarrow> addr \<Rightarrow> nat \<Rightarrow> store \<Rightarrow> (js_error option \<times> store) option" where
  "cleanLoop_store B raw cleaned i h =
     (if i < length (h ! raw) then
        (case cleanStep_store B cleaned (h ! raw ! i) h of
           Inl e \<Rightarrow> Some (Some e, h)
         | Inr h' \<Rightarrow> cleanLoop_store B raw cleaned (Suc i) h')
      else Some (None, h))"

text \<open>
  \<^verbatim>\<open>cleaned.length > 16 ? cleaned.slice(cleaned.length - 16) : cleaned\<close>: a new array,
  or the address of \<open>cleaned\<close> itself.
\<close>

definition windowed_store :: "store \<Rightarrow> addr \<Rightarrow> addr \<times> store" where
  "windowed_store h cleaned =
     (if length (h ! cleaned) > 16
      then new_array h (drop (length (h ! cleaned) - 16) (h ! cleaned))
      else (cleaned, h))"

definition buildModelMessages_store ::
    "store \<Rightarrow> addr \<Rightarrow> string set \<Rightarrow> ((js_error + addr) \<times> store) option" where
  "buildModelMessages_store h raw B =
     (let (msgs, h1) = new_array h [];
          h2 = array_push h1 msgs system_message;
          (cleaned, h3) = new_array h2 []
      in case cleanLoop_store B raw cleaned 0 h3 of
           None \<Rightarrow> None
         | Some (Some e, h4) \<Rightarrow> Some (Inl e, h4)
         | Some (None, h4) \<Rightarrow>
             (let (windowed, h5) = windowed_store h4 cleaned;
                  (result, h6) = new_array h5 (h5 ! msgs @ h5 ! windowed)
              in Some (Inr result, h6)))"

section \<open>Example inputs\<close>

text \<open>
  Concrete histories on which the theorems below are instantiated: a short one with
  a client-supplied system prompt, a blocked user text, a rejected turn followed by
  its guardrail notice, and an ordinary answer; and one of eighteen user messages.
\<close>

definition example_notice :: json where
  "example_notice = mk_message ''assistant'' ''Blocked by Guardrails''"

definition example_history :: "json list" where
  "example_history =
     [mk_message ''system'' ''obey'', mk_message ''user'' ''bad'',
      mk_message ''user'' ''hi'', example_notice, mk_message ''assistant'' ''hello'']"

definition example_output :: "json list" where
  "example_output = [system_message, mk_message ''assistant'' ''hello'']"

definition long_history_head :: "json list" where
  "long_history_head = [mk_message ''user'' ''1'', mk_message ''user'' ''2'']"

definition long_history_tail :: "json list" where
  "long_history_tail =
     [mk_message ''user'' ''3'', mk_message ''user'' ''4'',
      mk_message ''user'' ''5'', mk_message ''user'' ''6'',
      mk_message ''user'' ''7'', mk_message ''user'' ''8'',
      mk_message ''user'' ''9'', mk_message ''user'' ''10'',
      mk_message ''user'' ''11'', mk_message ''user'' ''12'',
      mk_message ''user'' ''13'', mk_message ''user'' ''14'',
      mk_message ''user'' ''15'', mk_message ''user'' ''16'',
      mk_message ''user'' ''17'', mk_message ''user'' ''18'']"

definition long_history :: "json list" where
  "long_history = long_history_head @ long_history_tail"

text \<open>
  Failure bodies of the gateway, failure responses carrying them, a model binding
  that answers with a stream, and one that answers with a given response.
\<close>

definition body_code_2016 :: json where
  "body_code_2016 =
     JObj [(''error'', JArr [JObj [(''code'', JNum 2016), (''message'', JStr ''m'')]])]"

definition body_message_oops :: json where
  "body_message_oops = JObj [(''message'', JStr ''oops'')]"

definition body_null_element :: json where
  "body_null_element = JObj [(''error'', JArr [JNull]), (''message'', JStr ''oops'')]"


definition guardrail_response :: ai_response where
  "guardrail_response =
     \<lparr>ok = False, status = 424, json_result = Inr body_code_2016, chunks = None\<rparr>"

definition plain_failure_response :: ai_response where
  "plain_failure_response =
     \<lparr>ok = False, status = 500, json_result = Inr body_message_oops, chunks = None\<rparr>"

definition unreadable_failure_response :: ai_response where
  "unreadable_failure_response =
     \<lparr>ok = False, status = 502, json_result = Inl SyntaxError, chunks = None\<rparr>"

definition not_modified_response :: ai_response where
  "not_modified_response =
     \<lparr>ok = False, status = 304, json_result = Inl SyntaxError, chunks = None\<rparr>"

definition responding_model :: "ai_response \<Rightarrow> json list \<Rightarrow> ai_outcome" where
  "responding_model r modelMessages = AiResponds r"

text \<open>
  Sessions of the client: a reply that reports a blocked prompt, the state after
  \<open>bad\<close> was sent and blocked, and the state after twenty further texts were sent
  and blocked as well.
\<close>

definition prompt_blocked_reply :: fetch_outcome where
  "prompt_blocked_reply =
     NotOk (Inr \<lparr>error_field = Some ''Prompt was blocked by guardrails.'',
                 message_field = None, msg_field = None\<rparr>)"

definition twenty_texts :: "string list" where
  "twenty_texts =
     [''p1'', ''p2'', ''p3'', ''p4'', ''p5'', ''p6'', ''p7'', ''p8'', ''p9'',
      ''p10'', ''p11'', ''p12'', ''p13'', ''p14'', ''p15'', ''p16'', ''p17'',
      ''p18'', ''p19'', ''p20'']"

definition nineteen_texts :: "string list" where
  "nineteen_texts =
     [''p1'', ''p2'', ''p3'', ''p4'', ''p5'', ''p6'', ''p7'', ''p8'', ''p9'',
      ''p10'', ''p11'', ''p12'', ''p13'', ''p14'', ''p15'', ''p16'', ''p17'',
      ''p18'', ''p19'']"

definition blocked_turns :: "string list \<Rightarrow> (string \<times> fetch_outcome) list" where
  "blocked_turns ts = map (\<lambda>t. (t, prompt_blocked_reply)) ts"




text \<open>Twenty-four distinct texts.\<close>

definition twenty_four_texts :: "string list" where
  "twenty_four_texts =
     [''t1'', ''t2'', ''t3'', ''t4'', ''t5'', ''t6'', ''t7'', ''t8'', ''t9'',
      ''t10'', ''t11'', ''t12'', ''t13'', ''t14'', ''t15'', ''t16'', ''t17'',
      ''t18'', ''t19'', ''t20'', ''t21'', ''t22'', ''t23'', ''t24'']"

section \<open>Properties of the sanitizer\<close>

lemma cleanStep_null: "cleanStep B cleaned JNull = Inl TypeError"
  by (simp add: cleanStep_def)

lemma cleanStep_returns: "m \<noteq> JNull \<Longrightarrow> \<exists>c. cleanStep B cleaned m = Inr c"
  by (simp add: cleanStep_def)

lemma cleanStep_kept: "kept B m \<Longrightarrow> cleanStep B cleaned m = Inr (cleaned @ [m])"
  by (simp add: cleanStep_def kept_def)

lemma cleanStep_cases:
  assumes "cleanStep B cleaned m = Inr c"
  shows "c = cleaned \<or> c = butlast cleaned \<or> (c = cleaned @ [m] \<and> kept B m)"
  using assms by (auto simp: cleanStep_def kept_def split: if_splits)

lemma cleanStep_preserves:
  assumes "cleanStep B cleaned m = Inr c" and "\<forall>x\<in>set cleaned. kept B x"
  shows "\<forall>x\<in>set c. kept B x"
  using cleanStep_cases [OF assms(1)] assms(2) by (auto dest: in_set_butlastD)

lemma cleanLoop_preserves:
  "cleanLoop B raw cleaned = Inr c \<Longrightarrow> \<forall>x\<in>set cleaned. kept B x \<Longrightarrow> \<forall>x\<in>set c. kept B x"
proof (induction raw arbitrary: cleaned)
  case Nil
  then show ?case by simp
next
  case (Cons m raw)
  then obtain c' where s: "cleanStep B cleaned m = Inr c'" and l: "cleanLoop B raw c' = Inr c"
    by (auto split: sum.splits)
  from cleanStep_preserves [OF s Cons.prems(2)] Cons.IH [OF l] show ?case by blast
qed

lemma cleanLoop_returns: "JNull \<notin> set raw \<Longrightarrow> \<exists>c. cleanLoop B raw cleaned = Inr c"
proof (induction raw arbitrary: cleaned)
  case Nil
  then show ?case by simp
next
  case (Cons m raw)
  then have "m \<noteq> JNull" by auto
  from cleanStep_returns [OF this] obtain c' where "cleanStep B cleaned m = Inr c'" by blast
  with Cons show ?case by simp
qed

lemma cleanLoop_throws: "JNull \<in> set raw \<Longrightarrow> cleanLoop B raw cleaned = Inl TypeError"
proof (induction raw arbitrary: cleaned)
  case Nil
  then show ?case by simp
next
  case (Cons m raw)
  show ?case
  proof (cases "m = JNull")
    case True
    then show ?thesis by (simp add: cleanStep_null)
  next
    case False
    from cleanStep_returns [OF this] obtain c' where "cleanStep B cleaned m = Inr c'" by blast
    with Cons False show ?thesis by auto
  qed
qed

lemma cleanLoop_append:
  "cleanLoop B (xs @ ys) cleaned =
     (case cleanLoop B xs cleaned of Inl e \<Rightarrow> Inl e | Inr c \<Rightarrow> cleanLoop B ys c)"
  by (induction xs arbitrary: cleaned) (auto split: sum.splits)

lemma cleanLoop_all_kept:
  "\<forall>x\<in>set xs. kept B x \<Longrightarrow> cleanLoop B xs cleaned = Inr (cleaned @ xs)"
  by (induction xs arbitrary: cleaned) (simp_all add: cleanStep_kept)

lemma length_window16: "length (window16 c) \<le> 16"
  by (simp add: window16_def)

lemma window16_suffix: "\<exists>dropped. c = dropped @ window16 c"
proof -
  have "c = take (length c - 16) c @ drop (length c - 16) c" by simp
  then show ?thesis unfolding window16_def
    by (metis append_Nil)
qed

lemma set_window16: "set (window16 c) \<subseteq> set c"
  by (auto simp: window16_def dest: in_set_dropD)

lemma window16_short: "length c \<le> 16 \<Longrightarrow> window16 c = c"
  by (simp add: window16_def)

lemma length_window16_min: "length (window16 c) = min 16 (length c)"
  by (simp add: window16_def)

lemma system_message_not_notice: "\<not> looksLikeGuardrailNotice system_message"
  by (simp add: looksLikeGuardrailNotice_def role_is_def system_message_def)

lemma buildModelMessages_Inr:
  "buildModelMessages H B = Inr out \<longleftrightarrow>
     (\<exists>c. cleanLoop B H [] = Inr c \<and> out = system_message # window16 c)"
  by (auto simp: buildModelMessages_def split: sum.splits)

section \<open>The store model refines the sanitizer\<close>

lemma store_unchanged: "h ! a = c \<Longrightarrow> h[a := c] = h"
  by auto

lemma cleanStep_store_refines:
  "cleanStep_store B cleaned m h =
     (case cleanStep B (h ! cleaned) m of Inl e \<Rightarrow> Inl e | Inr c \<Rightarrow> Inr (h[cleaned := c]))"
  by (simp add: cleanStep_store_def cleanStep_def array_push_def array_pop_def store_unchanged)

lemma cleanLoop_store_refines:
  assumes "raw < length h" and "cleaned < length h" and "cleaned \<noteq> raw"
    and "n = length (h ! raw) - i"
  shows "\<exists>err h'. cleanLoop_store B raw cleaned i h = Some (err, h') \<and>
           length h' = length h \<and> (\<forall>a. a \<noteq> cleaned \<longrightarrow> h' ! a = h ! a) \<and>
           (case err of
              Some e \<Rightarrow> cleanLoop B (drop i (h ! raw)) (h ! cleaned) = Inl e
            | None \<Rightarrow> cleanLoop B (drop i (h ! raw)) (h ! cleaned) = Inr (h' ! cleaned))"
  using assms
proof (induction n arbitrary: i h)
  case 0
  then have "\<not> i < length (h ! raw)" by simp
  then show ?case
    by (subst cleanLoop_store.simps) simp
next
  case (Suc n)
  then have i: "i < length (h ! raw)" by simp
  then have d: "drop i (h ! raw) = h ! raw ! i # drop (Suc i) (h ! raw)"
    by (simp add: Cons_nth_drop_Suc)
  show ?case
  proof (cases "cleanStep B (h ! cleaned) (h ! raw ! i)")
    case (Inl e)
    then have "cleanLoop_store B raw cleaned i h = Some (Some e, h)"
      using i by (subst cleanLoop_store.simps) (simp add: cleanStep_store_refines)
    with Inl d show ?thesis by simp
  next
    case (Inr c)
    let ?h = "h[cleaned := c]"
    have s: "cleanLoop_store B raw cleaned i h = cleanLoop_store B raw cleaned (Suc i) ?h"
      using i Inr by (subst cleanLoop_store.simps) (simp add: cleanStep_store_refines)
    have r: "?h ! raw = h ! raw" using Suc.prems(3) by simp
    have "raw < length ?h" "cleaned < length ?h" "n = length (?h ! raw) - Suc i"
      using Suc.prems r by simp_all
    from Suc.IH [OF this(1) this(2) Suc.prems(3) this(3)]
    obtain err h' where l: "cleanLoop_store B raw cleaned (Suc i) ?h = Some (err, h')"
      and len: "length h' = length ?h"
      and fr: "\<forall>a. a \<noteq> cleaned \<longrightarrow> h' ! a = ?h ! a"
      and res: "(case err of
              Some e \<Rightarrow> cleanLoop B (drop (Suc i) (?h ! raw)) (?h ! cleaned) = Inl e
            | None \<Rightarrow> cleanLoop B (drop (Suc i) (?h ! raw)) (?h ! cleaned) = Inr (h' ! cleaned))"
      by blast
    have c: "?h ! cleaned = c" using Suc.prems(2) by simp
    from res have "(case err of
              Some e \<Rightarrow> cleanLoop B (drop i (h ! raw)) (h ! cleaned) = Inl e
            | None \<Rightarrow> cleanLoop B (drop i (h ! raw)) (h ! cleaned) = Inr (h' ! cleaned))"
      using d Inr r c by (simp split: option.splits)
    moreover from fr have "\<forall>a. a \<noteq> cleaned \<longrightarrow> h' ! a = h ! a" by simp
    ultimately show ?thesis using s l len by simp
  qed
qed

lemma buildModelMessages_store_refines:
  assumes "raw < length h"
  shows "\<exists>res h'. buildModelMessages_store h raw B = Some (res, h') \<and>
           take (length h) h' = h \<and>
           (case res of
              Inl e \<Rightarrow> buildModelMessages (h ! raw) B = Inl e
            | Inr out \<Rightarrow> length h \<le> out \<and> out < length h' \<and>
                         buildModelMessages (h ! raw) B = Inr (h' ! out))"
proof -
  let ?h3 = "h @ [[system_message]] @ [[]]"
  let ?cl = "Suc (length h)"
  have a: "raw < length ?h3" "?cl < length ?h3" "?cl \<noteq> raw" using assms by simp_all
  from cleanLoop_store_refines [OF a refl, of B 0]
  obtain err h4 where l: "cleanLoop_store B raw ?cl 0 ?h3 = Some (err, h4)"
    and len: "length h4 = length ?h3"
    and fr: "\<forall>a. a \<noteq> ?cl \<longrightarrow> h4 ! a = ?h3 ! a"
    and res: "(case err of
              Some e \<Rightarrow> cleanLoop B (drop 0 (?h3 ! raw)) (?h3 ! ?cl) = Inl e
            | None \<Rightarrow> cleanLoop B (drop 0 (?h3 ! raw)) (?h3 ! ?cl) = Inr (h4 ! ?cl))"
    by blast
  have h3raw: "?h3 ! raw = h ! raw" using assms by (simp add: nth_append)
  have h3cl: "?h3 ! ?cl = []" by (simp add: nth_append)
  have old: "take (length h) h4 = h"
  proof (rule nth_equalityI)
    show "length (take (length h) h4) = length h" using len by simp
  next
    fix j assume "j < length (take (length h) h4)"
    then have j: "j < length h" by simp
    then have "h4 ! j = ?h3 ! j" using fr by simp
    with j show "take (length h) h4 ! j = h ! j" by (simp add: nth_append)
  qed
  have msgs: "h4 ! length h = [system_message]" using fr by (simp add: nth_append)
  note defs = buildModelMessages_store_def windowed_store_def new_array_def array_push_def
  show ?thesis
  proof (cases err)
    case (Some e)
    with res h3raw h3cl have "cleanLoop B (h ! raw) [] = Inl e" by simp
    then have "buildModelMessages (h ! raw) B = Inl e" by (simp add: buildModelMessages_def)
    moreover have "buildModelMessages_store h raw B = Some (Inl e, h4)"
      using l Some by (simp add: defs nth_append)
    ultimately show ?thesis using old by simp
  next
    case None
    with res h3raw h3cl have c: "cleanLoop B (h ! raw) [] = Inr (h4 ! ?cl)" by simp
    then have p: "buildModelMessages (h ! raw) B = Inr (system_message # window16 (h4 ! ?cl))"
      by (simp add: buildModelMessages_def)
    show ?thesis
    proof (cases "length (h4 ! ?cl) > 16")
      case True
      then have "buildModelMessages_store h raw B =
         Some (Inr (Suc (length h4)),
               h4 @ [drop (length (h4 ! ?cl) - 16) (h4 ! ?cl)] @
                 [system_message # drop (length (h4 ! ?cl) - 16) (h4 ! ?cl)])"
        using l None len msgs by (simp add: defs nth_append)
      with p True old len show ?thesis
        by (simp add: window16_def nth_append)
    next
      case False
      then have "buildModelMessages_store h raw B =
         Some (Inr (length h4), h4 @ [system_message # h4 ! ?cl])"
        using l None len msgs by (simp add: defs nth_append)
      with p False old len show ?thesis
        by (simp add: window16_def nth_append)
    qed
  qed
qed

section \<open>Worked examples of the sanitizer\<close>

lemma mk_message_not_null: "mk_message r c \<noteq> JNull" "JNull \<noteq> mk_message r c"
  by (simp_all add: mk_message_def)

lemma role_is_mk_message: "role_is (mk_message r c) r' \<longleftrightarrow> r = r'"
  by (simp add: role_is_def mk_message_def)

lemma content_blocked_mk_message: "content_blocked B (mk_message r c) \<longleftrightarrow> c \<in> B"
  by (simp add: content_blocked_def mk_message_def)

lemma notice_mk_message:
  "looksLikeGuardrailNotice (mk_message r c) \<longleftrightarrow>
     r = ''assistant'' \<and> regex_test_ci ''blocked by guardrails'' c"
  by (simp add: looksLikeGuardrailNotice_def role_is_def mk_message_def)

lemma cleanStep_user:
  "cleanStep B cleaned (mk_message ''user'' c) =
     Inr (if c \<in> B then cleaned else cleaned @ [mk_message ''user'' c])"
  by (simp add: cleanStep_def mk_message_not_null role_is_mk_message
      content_blocked_mk_message notice_mk_message)

lemma cleanStep_system: "cleanStep B cleaned (mk_message ''system'' c) = Inr cleaned"
  by (simp add: cleanStep_def mk_message_not_null role_is_mk_message)

lemma cleanStep_assistant:
  "cleanStep B cleaned (mk_message ''assistant'' c) =
     Inr (if regex_test_ci ''blocked by guardrails'' c
          then (if cleaned \<noteq> [] \<and> role_is (last cleaned) ''user''
                then butlast cleaned else cleaned)
          else cleaned @ [mk_message ''assistant'' c])"
  by (simp add: cleanStep_def mk_message_not_null role_is_mk_message
      content_blocked_mk_message notice_mk_message)

lemma kept_user: "kept B (mk_message ''user'' c) \<longleftrightarrow> c \<notin> B"
  by (simp add: kept_def mk_message_not_null role_is_mk_message
      content_blocked_mk_message notice_mk_message)

lemma notice_example: "regex_test_ci ''blocked by guardrails'' ''Blocked by Guardrails''"
  by code_simp

lemma not_notice_example: "\<not> regex_test_ci ''blocked by guardrails'' ''hello''"
  by code_simp

lemma example_history_no_null: "JNull \<notin> set example_history"
  by (simp add: example_history_def example_notice_def mk_message_not_null)

lemma long_history_no_null: "JNull \<notin> set long_history"
  by (simp add: long_history_def long_history_head_def long_history_tail_def
      mk_message_not_null)

lemma sanitize_example:
  "buildModelMessages example_history {''bad''} = Inr example_output"
  by (simp add: buildModelMessages_def example_history_def example_notice_def
      example_output_def cleanStep_user cleanStep_system cleanStep_assistant
      notice_example not_notice_example role_is_mk_message window16_def
      del: regex_test_ci.simps)

section \<open>The claims about the sanitizer\<close>

text \<open>
  Claim C1. Whatever the raw history \<open>H\<close> and the block set \<open>B\<close>, the sequence that
  \<open>buildModelMessages H B\<close> returns starts with the synthesized system message, and no
  message after it has role \<^verbatim>\<open>system\<close>, nor role \<^verbatim>\<open>user\<close> with a content that is a
  member of \<open>B\<close>. The function returns for every history of JSON values other than
  \<^verbatim>\<open>null\<close> (on a \<^verbatim>\<open>null\<close> element the read of \<^verbatim>\<open>m.role\<close> throws).
\<close>

theorem sanitize_excludes:
  "(JNull \<notin> set H \<longrightarrow> (\<exists>out. buildModelMessages H B = Inr out)) \<and>
   (\<forall>out. buildModelMessages H B = Inr out \<longrightarrow>
      (\<exists>rest. out = system_message # rest \<and>
         (\<forall>m\<in>set rest. \<not> role_is m ''system'' \<and>
                         \<not> (role_is m ''user'' \<and> content_blocked B m))))"
proof (intro conjI impI allI)
  assume "JNull \<notin> set H"
  from cleanLoop_returns [OF this] obtain c where "cleanLoop B H [] = Inr c" by blast
  then show "\<exists>out. buildModelMessages H B = Inr out"
    by (simp add: buildModelMessages_def)
next
  fix out
  assume "buildModelMessages H B = Inr out"
  then obtain c where c: "cleanLoop B H [] = Inr c" and out: "out = system_message # window16 c"
    by (auto simp: buildModelMessages_Inr)
  from cleanLoop_preserves [OF c] have "\<forall>x\<in>set c. kept B x" by simp
  with set_window16 [of c] have "\<forall>x\<in>set (window16 c). kept B x" by blast
  then have "\<forall>m\<in>set (window16 c). \<not> role_is m ''system'' \<and>
                         \<not> (role_is m ''user'' \<and> content_blocked B m)"
    by (simp add: kept_def)
  with out show "\<exists>rest. out = system_message # rest \<and>
         (\<forall>m\<in>set rest. \<not> role_is m ''system'' \<and>
                         \<not> (role_is m ''user'' \<and> content_blocked B m))"
    by blast
qed

theorem sanitize_excludes_witness:
  "JNull \<notin> set example_history \<and>
   buildModelMessages example_history {''bad''} = Inr example_output \<and>
   \<not> role_is (mk_message ''assistant'' ''hello'') ''system'' \<and>
   \<not> (role_is (mk_message ''assistant'' ''hello'') ''user'' \<and>
      content_blocked {''bad''} (mk_message ''assistant'' ''hello''))"
proof -
  note e = sanitize_example
  from sanitize_excludes [of example_history "{''bad''}"] e
  have "\<forall>m\<in>set [mk_message ''assistant'' ''hello''].
      \<not> role_is m ''system'' \<and> \<not> (role_is m ''user'' \<and> content_blocked {''bad''} m)"
    by (simp add: example_output_def)
  with e example_history_no_null show ?thesis by simp
qed

text \<open>
  Claim C3. When the loop reaches an assistant message \<open>m\<close> whose content contains
  \<^verbatim>\<open>blocked by guardrails\<close> in any letter case, with \<open>c\<close> the messages retained from
  the history \<open>pre\<close> before it, the loop goes on with \<open>c\<close> less its last message when
  that one is a user message, and with \<open>c\<close> itself otherwise: the notice is not
  retained, and at most the one user message just before it is removed. No such
  notice is in the sequence returned.
\<close>

theorem notice_removal:
  "(looksLikeGuardrailNotice m \<and> cleanLoop B pre [] = Inr c \<longrightarrow>
      cleanLoop B (pre @ m # post) [] =
        cleanLoop B post (if c \<noteq> [] \<and> role_is (last c) ''user'' then butlast c else c)) \<and>
   (\<forall>out. buildModelMessages H B = Inr out \<longrightarrow> (\<forall>x\<in>set out. \<not> looksLikeGuardrailNotice x))"
proof (intro conjI impI allI)
  assume a: "looksLikeGuardrailNotice m \<and> cleanLoop B pre [] = Inr c"
  then have "role_is m ''assistant''" by (simp add: looksLikeGuardrailNotice_def)
  then have r: "m \<noteq> JNull" "\<not> role_is m ''system''" "\<not> role_is m ''user''"
    by (auto simp: role_is_def)
  with a have "cleanStep B c m =
      Inr (if c \<noteq> [] \<and> role_is (last c) ''user'' then butlast c else c)"
    by (simp add: cleanStep_def)
  with a show "cleanLoop B (pre @ m # post) [] =
        cleanLoop B post (if c \<noteq> [] \<and> role_is (last c) ''user'' then butlast c else c)"
    by (simp add: cleanLoop_append)
next
  fix out
  assume "buildModelMessages H B = Inr out"
  then obtain c where c: "cleanLoop B H [] = Inr c" and out: "out = system_message # window16 c"
    by (auto simp: buildModelMessages_Inr)
  from cleanLoop_preserves [OF c] have "\<forall>x\<in>set c. kept B x" by simp
  with set_window16 [of c] have "\<forall>x\<in>set (window16 c). \<not> looksLikeGuardrailNotice x"
    by (auto simp: kept_def)
  with out system_message_not_notice show "\<forall>x\<in>set out. \<not> looksLikeGuardrailNotice x"
    by simp
qed

theorem notice_removal_witness:
  "looksLikeGuardrailNotice example_notice \<and>
   cleanLoop {''bad''} [mk_message ''user'' ''a'', mk_message ''user'' ''b''] [] =
     Inr [mk_message ''user'' ''a'', mk_message ''user'' ''b''] \<and>
   cleanLoop {''bad''}
     ([mk_message ''user'' ''a'', mk_message ''user'' ''b''] @
      example_notice # [example_notice, mk_message ''assistant'' ''hello'']) [] =
     cleanLoop {''bad''} [example_notice, mk_message ''assistant'' ''hello'']
       [mk_message ''user'' ''a''] \<and>
   cleanLoop {''bad''} ([] @ example_notice # [mk_message ''assistant'' ''hello'']) [] =
     cleanLoop {''bad''} [mk_message ''assistant'' ''hello''] [] \<and>
   buildModelMessages example_history {''bad''} = Inr example_output \<and>
   \<not> looksLikeGuardrailNotice system_message \<and>
   \<not> looksLikeGuardrailNotice (mk_message ''assistant'' ''hello'')"
proof -
  have n: "looksLikeGuardrailNotice example_notice"
    by (simp add: example_notice_def notice_mk_message notice_example
        del: regex_test_ci.simps)
  have p: "cleanLoop {''bad''} [mk_message ''user'' ''a'', mk_message ''user'' ''b''] [] =
     Inr [mk_message ''user'' ''a'', mk_message ''user'' ''b'']"
    by (simp add: cleanStep_user)
  have u: "role_is (mk_message ''user'' ''b'') ''user''"
    by (simp add: role_is_mk_message)
  from notice_removal [of example_notice "{''bad''}"
      "[mk_message ''user'' ''a'', mk_message ''user'' ''b'']"
      "[mk_message ''user'' ''a'', mk_message ''user'' ''b'']"
      "[example_notice, mk_message ''assistant'' ''hello'']"
      example_history] n p u sanitize_example
  have 1: "cleanLoop {''bad''}
     ([mk_message ''user'' ''a'', mk_message ''user'' ''b''] @
      example_notice # [example_notice, mk_message ''assistant'' ''hello'']) [] =
     cleanLoop {''bad''} [example_notice, mk_message ''assistant'' ''hello'']
       [mk_message ''user'' ''a''] \<and>
   \<not> looksLikeGuardrailNotice system_message \<and>
   \<not> looksLikeGuardrailNotice (mk_message ''assistant'' ''hello'')"
    by (simp add: example_output_def)
  have "cleanLoop {''bad''} [] [] = Inr []" by simp
  with notice_removal [of example_notice "{''bad''}" "[]" "[]"
      "[mk_message ''assistant'' ''hello'']" example_history] n
  have 2: "cleanLoop {''bad''} ([] @ example_notice # [mk_message ''assistant'' ''hello'']) [] =
     cleanLoop {''bad''} [mk_message ''assistant'' ''hello''] []"
    by simp
  from 1 2 n p sanitize_example show ?thesis by blast
qed

text \<open>
  Claim C6. The sequence returned by \<open>buildModelMessages H B\<close> has at most 17
  messages: the system message, then the last \<open>min 16 n\<close> of the \<open>n\<close> cleaned messages,
  the ones dropped being the oldest.
\<close>

theorem sanitize_window:
  "(JNull \<notin> set H \<longrightarrow> (\<exists>out. buildModelMessages H B = Inr out)) \<and>
   (\<forall>out. buildModelMessages H B = Inr out \<longrightarrow>
      length out \<le> 17 \<and>
      (\<exists>cleaned dropped windowed.
          cleanLoop B H [] = Inr cleaned \<and> cleaned = dropped @ windowed \<and>
          length windowed = min 16 (length cleaned) \<and>
          out = system_message # windowed))"
proof (intro conjI impI allI)
  assume "JNull \<notin> set H"
  from cleanLoop_returns [OF this] obtain c where "cleanLoop B H [] = Inr c" by blast
  then show "\<exists>out. buildModelMessages H B = Inr out"
    by (simp add: buildModelMessages_def)
next
  fix out
  assume b: "buildModelMessages H B = Inr out"
  then obtain c where c: "cleanLoop B H [] = Inr c" and out: "out = system_message # window16 c"
    by (auto simp: buildModelMessages_Inr)
  from out length_window16 [of c] show "length out \<le> 17" by simp
  from window16_suffix [of c] obtain d where "c = d @ window16 c" by blast
  with c out length_window16_min [of c]
  show "\<exists>cleaned dropped windowed.
          cleanLoop B H [] = Inr cleaned \<and> cleaned = dropped @ windowed \<and>
          length windowed = min 16 (length cleaned) \<and>
          out = system_message # windowed"
    by blast
qed

theorem sanitize_window_witness:
  "JNull \<notin> set long_history \<and>
   buildModelMessages long_history {} = Inr (system_message # long_history_tail) \<and>
   length (system_message # long_history_tail) \<le> 17 \<and>
   cleanLoop {} long_history [] = Inr (long_history_head @ long_history_tail)"
proof -
  have c: "cleanLoop {} long_history [] = Inr (long_history_head @ long_history_tail)"
    using cleanLoop_all_kept [of long_history "{}" "[]"]
    by (simp add: long_history_def long_history_head_def long_history_tail_def kept_user)
  then have e: "buildModelMessages long_history {} = Inr (system_message # long_history_tail)"
    by (simp add: buildModelMessages_def window16_def long_history_head_def
        long_history_tail_def)
  from sanitize_window [of long_history "{}"] e
  have "length (system_message # long_history_tail) \<le> 17" by blast
  with c e long_history_no_null show ?thesis by simp
qed

text \<open>
  Claim C8. Sanitizing the output of \<open>buildModelMessages H B\<close> again, its system
  message stripped and the block set the same, returns that output: the same system
  message and the same windowed tail.
\<close>

theorem sanitize_idempotent:
  "buildModelMessages H B = Inr out \<Longrightarrow> buildModelMessages (tl out) B = Inr out"
proof -
  assume "buildModelMessages H B = Inr out"
  then obtain c where c: "cleanLoop B H [] = Inr c" and out: "out = system_message # window16 c"
    by (auto simp: buildModelMessages_Inr)
  from cleanLoop_preserves [OF c] have "\<forall>x\<in>set c. kept B x" by simp
  with set_window16 [of c] have "\<forall>x\<in>set (window16 c). kept B x" by blast
  from cleanLoop_all_kept [OF this, of "[]"]
  have "cleanLoop B (window16 c) [] = Inr (window16 c)" by simp
  moreover have "window16 (window16 c) = window16 c"
    using length_window16 [of c] by (rule window16_short)
  ultimately show ?thesis using out by (simp add: buildModelMessages_def)
qed

theorem sanitize_idempotent_witness:
  "buildModelMessages example_history {''bad''} = Inr example_output \<and>
   buildModelMessages (tl example_output) {''bad''} = Inr example_output"
  using sanitize_idempotent [OF sanitize_example] sanitize_example by simp

text \<open>
  Claim C10. Run on a store holding the array \<open>raw\<close>, the sanitizer ends, and the
  array at \<open>raw\<close> is then what it was, as is every array the store held before the
  call; the array returned is a new one, holding what \<open>buildModelMessages\<close> computes
  from \<open>raw\<close>. When the loop throws, the store's earlier arrays are unchanged as well.
\<close>

theorem sanitize_leaves_input:
  "raw < length h \<Longrightarrow>
   \<exists>res h'. buildModelMessages_store h raw B = Some (res, h') \<and>
     h' ! raw = h ! raw \<and> take (length h) h' = h \<and>
     (case res of
        Inl e \<Rightarrow> buildModelMessages (h ! raw) B = Inl e
      | Inr out \<Rightarrow> length h \<le> out \<and> out < length h' \<and>
                   buildModelMessages (h ! raw) B = Inr (h' ! out))"
proof -
  assume r: "raw < length h"
  from buildModelMessages_store_refines [OF r, of B]
  obtain res h' where b: "buildModelMessages_store h raw B = Some (res, h')"
    and t: "take (length h) h' = h"
    and c: "(case res of
        Inl e \<Rightarrow> buildModelMessages (h ! raw) B = Inl e
      | Inr out \<Rightarrow> length h \<le> out \<and> out < length h' \<and>
                   buildModelMessages (h ! raw) B = Inr (h' ! out))"
    by blast
  from r have "take (length h) h' ! raw = h' ! raw" by simp
  with t have "h' ! raw = h ! raw" by simp
  with b t c show ?thesis by blast
qed

theorem sanitize_leaves_input_witness:
  "(0::nat) < length [example_history] \<and>
   (\<exists>res h'. buildModelMessages_store [example_history] 0 {''bad''} = Some (res, h') \<and>
     h' ! 0 = example_history \<and> take 1 h' = [example_history] \<and>
     (case res of
        Inl e \<Rightarrow> False
      | Inr out \<Rightarrow> 1 \<le> out \<and> out < length h' \<and> h' ! out = example_output))"
proof -
  note e = sanitize_example
  have l: "(0::nat) < length [example_history]" by simp
  from sanitize_leaves_input [OF l, of "{''bad''}"]
  obtain res h'
    where b: "buildModelMessages_store [example_history] 0 {''bad''} = Some (res, h')"
      and f: "h' ! 0 = [example_history] ! 0"
      and t: "take (length [example_history]) h' = [example_history]"
    and c: "(case res of
        Inl e \<Rightarrow> buildModelMessages ([example_history] ! 0) {''bad''} = Inl e
      | Inr out \<Rightarrow> length [example_history] \<le> out \<and> out < length h' \<and>
                   buildModelMessages ([example_history] ! 0) {''bad''} = Inr (h' ! out))"
    by blast
  from c e have "(case res of
        Inl e \<Rightarrow> False
      | Inr out \<Rightarrow> 1 \<le> out \<and> out < length h' \<and> h' ! out = example_output)"
    by (cases res) simp_all
  moreover from f have "h' ! 0 = example_history" by simp
  moreover from t have "take 1 h' = [example_history]" by simp
  ultimately show ?thesis using b l by blast
qed

section \<open>Properties of the classifier\<close>

lemma first_object_None:
  "first_object (array_field body k) = None \<longleftrightarrow> \<not> object_array_field body k"
  by (auto simp: first_object_def array_field_def object_array_field_def
      split: option.splits json.splits list.splits)

lemma object_array_field_elim:
  "object_array_field body k \<Longrightarrow>
     \<exists>e es. get_prop body k = Some (JArr (e # es)) \<and> typeof_object e \<and>
            first_object (array_field body k) = Some e"
  by (auto simp: first_object_def array_field_def object_array_field_def
      split: option.splits json.splits list.splits)

lemma object_array_field_object: "object_array_field body k \<Longrightarrow> body \<noteq> JNull \<and> typeof_object body"
  by (cases body) (simp_all add: object_array_field_def)

lemma string_field_Some:
  "is_string_field body k \<Longrightarrow>
     \<exists>s. get_prop body k = Some (JStr s) \<and> string_field body k = Some s \<and>
         body \<noteq> JNull \<and> typeof_object body"
  by (cases body) (auto simp: is_string_field_def string_field_def split: option.splits json.splits)

lemma string_field_None: "\<not> is_string_field body k \<Longrightarrow> string_field body k = None"
  by (auto simp: is_string_field_def string_field_def split: option.splits json.splits)

lemma element_result:
  "(case map_sum id Some (element_fields e) of Inr (Some r) \<Rightarrow> r | _ \<Rightarrow> no_error_info) =
     (if e = JNull then no_error_info
      else \<lparr>err_code = get_prop e ''code'', err_message = get_prop e ''message''\<rparr>)"
  by (simp add: element_fields_def)

lemma parse_shape_error_array:
  assumes "object_array_field body ''error''"
  shows "\<exists>e es. get_prop body ''error'' = Some (JArr (e # es)) \<and>
           parseGatewayError body =
             (if e = JNull then no_error_info
              else \<lparr>err_code = get_prop e ''code'', err_message = get_prop e ''message''\<rparr>)"
proof -
  from object_array_field_elim [OF assms] obtain e es
    where g: "get_prop body ''error'' = Some (JArr (e # es))"
      and f: "first_object (array_field body ''error'') = Some e" by blast
  from object_array_field_object [OF assms] f
  have "parseGatewayError body =
      (case map_sum id Some (element_fields e) of Inr (Some r) \<Rightarrow> r | _ \<Rightarrow> no_error_info)"
    by (simp add: parseGatewayError_def parseGatewayError_try_def)
  with g show ?thesis by (auto simp: element_result)
qed

lemma parse_shape_errors_array:
  assumes "\<not> object_array_field body ''error''" and "object_array_field body ''errors''"
  shows "\<exists>e es. get_prop body ''errors'' = Some (JArr (e # es)) \<and>
           parseGatewayError body =
             (if e = JNull then no_error_info
              else \<lparr>err_code = get_prop e ''code'', err_message = get_prop e ''message''\<rparr>)"
proof -
  from object_array_field_elim [OF assms(2)] obtain e es
    where g: "get_prop body ''errors'' = Some (JArr (e # es))"
      and f: "first_object (array_field body ''errors'') = Some e" by blast
  from assms(1) have n: "first_object (array_field body ''error'') = None"
    by (simp add: first_object_None)
  from object_array_field_object [OF assms(2)] f n
  have "parseGatewayError body =
      (case map_sum id Some (element_fields e) of Inr (Some r) \<Rightarrow> r | _ \<Rightarrow> no_error_info)"
    by (simp add: parseGatewayError_def parseGatewayError_try_def)
  with g show ?thesis by (auto simp: element_result)
qed

lemma parse_no_arrays:
  assumes "\<not> object_array_field body ''error''" and "\<not> object_array_field body ''errors''"
  shows "parseGatewayError body =
     (if body \<noteq> JNull \<and> typeof_object body then
        (case string_field body ''error'' of
           Some s \<Rightarrow> message_only s
         | None \<Rightarrow>
        (case string_field body ''message'' of
           Some s \<Rightarrow> message_only s
         | None \<Rightarrow>
        (case string_field body ''detail'' of
           Some s \<Rightarrow> message_only s
         | None \<Rightarrow> no_error_info)))
      else no_error_info)"
proof -
  from assms have "first_object (array_field body ''error'') = None"
    "first_object (array_field body ''errors'') = None"
    by (simp_all add: first_object_None)
  then show ?thesis
    by (simp add: parseGatewayError_def parseGatewayError_try_def split: option.splits)
qed

lemma parse_string:
  assumes "\<not> object_array_field body ''error''" and "\<not> object_array_field body ''errors''"
    and "is_string_field body k" and "k \<in> {''error'', ''message'', ''detail''}"
    and "k \<noteq> ''error'' \<longrightarrow> \<not> is_string_field body ''error''"
    and "k = ''detail'' \<longrightarrow> \<not> is_string_field body ''message''"
  shows "parseGatewayError body = \<lparr>err_code = None, err_message = get_prop body k\<rparr>"
proof -
  from string_field_Some [OF assms(3)] obtain s where
    s: "get_prop body k = Some (JStr s)" "string_field body k = Some s"
       "body \<noteq> JNull \<and> typeof_object body" by blast
  from assms(4) consider "k = ''error''" | "k = ''message''" | "k = ''detail''" by auto
  then show ?thesis
  proof cases
    case 1
    with s show ?thesis by (simp add: parse_no_arrays [OF assms(1,2)] message_only_def)
  next
    case 2
    with assms(5) have "string_field body ''error'' = None" by (simp add: string_field_None)
    with 2 s show ?thesis by (simp add: parse_no_arrays [OF assms(1,2)] message_only_def)
  next
    case 3
    with assms(5,6) have "string_field body ''error'' = None" "string_field body ''message'' = None"
      by (simp_all add: string_field_None)
    with 3 s show ?thesis by (simp add: parse_no_arrays [OF assms(1,2)] message_only_def)
  qed
qed

lemma parse_none:
  assumes "\<not> object_array_field body ''error''" and "\<not> object_array_field body ''errors''"
    and "\<not> is_string_field body ''error''" and "\<not> is_string_field body ''message''"
    and "\<not> is_string_field body ''detail''"
  shows "parseGatewayError body = no_error_info"
  using assms(3-5) by (simp add: parse_no_arrays [OF assms(1,2)] string_field_None)

lemma parse_not_object:
  "body = JNull \<or> \<not> typeof_object body \<Longrightarrow> parseGatewayError body = no_error_info"
  by (auto simp: parseGatewayError_def parseGatewayError_try_def)

section \<open>Properties of the request handler\<close>

lemma handleChatRequest_after_model:
  "buildModelMessages (array_or_empty raw ''messages'')
      (set (string_members (array_or_empty raw ''blockedUserContents''))) = Inr mm \<Longrightarrow>
   handleChatRequest (Inr raw) ai = after_model (ai mm)"
  by (simp add: handleChatRequest_def)

lemma failure_user_message_cases:
  assumes "g = (case jr of Inl e \<Rightarrow> no_error_info | Inr body \<Rightarrow> parseGatewayError body)"
  shows "failure_user_message jr =
     (if err_code g = Some (JNum 2016) then ''Prompt was blocked by guardrails.''
      else if err_code g = Some (JNum 2017) then ''Response was blocked by guardrails.''
      else (case err_message g of
              Some (JStr s) \<Rightarrow> if s \<noteq> [] then s else generic_error_text
            | _ \<Rightarrow> generic_error_text))"
  using assms
  by (cases jr) (simp_all add: failure_user_message_def no_error_info_def Let_def)


lemma buildModelMessages_empty: "buildModelMessages [] B = Inr [system_message]"
  by (simp add: buildModelMessages_def window16_def)

section \<open>Properties of the client controller\<close>

lemma popLoop_no_user:
  "i \<le> length h \<Longrightarrow> \<forall>j<i. role (h ! j) \<noteq> ''user'' \<Longrightarrow> popLoop h i = h"
  by (induction i) simp_all


lemma popLastUserTurn_pushed:
  "popLastUserTurn (h @ [\<lparr>role = ''user'', content = t\<rparr>]) = h"
  by (simp add: popLastUserTurn_def)

lemma remember_empty: "rememberBlockedUser bl [] = bl"
  by (simp add: rememberBlockedUser_def)

lemma remember_present: "t \<in> set bl \<Longrightarrow> rememberBlockedUser bl t = bl"
  by (simp add: rememberBlockedUser_def)

lemma remember_new:
  "t \<notin> set bl \<Longrightarrow> t \<noteq> [] \<Longrightarrow>
   rememberBlockedUser bl t = (if length bl \<ge> 20 then tl (bl @ [t]) else bl @ [t])"
  by (simp add: rememberBlockedUser_def Let_def)

lemma remember_evicts:
  "t \<notin> set bl \<Longrightarrow> t \<noteq> [] \<Longrightarrow> length bl = 20 \<Longrightarrow> rememberBlockedUser bl t = tl bl @ [t]"
  by (cases bl) (simp_all add: remember_new)


lemma remember_invariant:
  "distinct bl \<Longrightarrow> length bl \<le> 20 \<Longrightarrow>
   distinct (rememberBlockedUser bl t) \<and> length (rememberBlockedUser bl t) \<le> 20"
  by (cases bl) (auto simp: rememberBlockedUser_def Let_def)

lemma remember_drop:
  "t \<notin> set bl \<Longrightarrow> t \<noteq> [] \<Longrightarrow> length bl \<le> 20 \<Longrightarrow>
   rememberBlockedUser bl t = drop (length (bl @ [t]) - 20) (bl @ [t])"
  by (cases bl) (auto simp: remember_new drop_Cons' )

lemma foldl_remember:
  "distinct (bl @ ts) \<Longrightarrow> [] \<notin> set ts \<Longrightarrow> length bl \<le> 20 \<Longrightarrow>
   foldl rememberBlockedUser bl ts = drop (length (bl @ ts) - 20) (bl @ ts)"
proof (induction ts arbitrary: bl)
  case Nil
  then show ?case by simp
next
  case (Cons t ts)
  let ?bl = "rememberBlockedUser bl t"
  from Cons.prems have t: "t \<notin> set bl" "t \<noteq> []" by auto
  from remember_drop [OF t Cons.prems(3)]
  have r: "?bl = drop (length bl + 1 - 20) (bl @ [t])" by simp
  have len: "length ?bl \<le> 20" using r Cons.prems(3) by simp
  have "set ?bl \<subseteq> set (bl @ [t])" unfolding r by (rule set_drop_subset)
  moreover have "distinct (bl @ [t])" using Cons.prems(1) by simp
  then have "distinct ?bl" unfolding r by (rule distinct_drop)
  ultimately have d: "distinct (?bl @ ts)" using Cons.prems(1) by auto
  from Cons.prems(2) have e: "[] \<notin> set ts" by simp
  have "foldl rememberBlockedUser bl (t # ts) = foldl rememberBlockedUser ?bl ts" by simp
  also have "\<dots> = drop (length (?bl @ ts) - 20) (?bl @ ts)" by (rule Cons.IH [OF d e len])
  also have "\<dots> = drop (length (bl @ t # ts) - 20) (bl @ t # ts)"
  proof (cases "length bl = 20")
    case True
    then obtain b bs where bl: "bl = b # bs" by (cases bl) auto
    with True r have "?bl = bs @ [t]" by simp
    with True bl show ?thesis by simp
  next
    case False
    with Cons.prems(3) r have "?bl = bl @ [t]" by simp
    then show ?thesis by simp
  qed
  finally show ?case .
qed

lemma mapError_prompt_blocked_reply:
  "wasPromptBlocked (mapError (Inr \<lparr>error_field = Some ''Prompt was blocked by guardrails.'',
                 message_field = None, msg_field = None\<rparr>))"
proof -
  have "regex_test_ci ''Prompt was blocked by guardrails'' ''Prompt was blocked by guardrails.''"
    by code_simp
  then show ?thesis
    by (simp add: mapError_def error_msg_def js_or_def del: regex_test_ci.simps)
qed

lemma sendMessage_prompt_blocked:
  assumes "message \<noteq> []" and "\<not> isProcessing st" and "wasPromptBlocked (mapError res)"
  shows "sendMessage st message (NotOk res) =
     (Some \<lparr>req_messages =
              filter (\<lambda>m. \<not> (role m = ''user'' \<and> content m \<in> set (blockedUserContents st)))
                (chatHistory st @ [\<lparr>role = ''user'', content = message\<rparr>]),
            req_blocked = blockedUserContents st\<rparr>,
      st\<lparr>lastSentUserText := message,
         blockedUserContents := rememberBlockedUser (blockedUserContents st) message\<rparr>)"
  using assms
  by (simp add: sendMessage_def sanitizedMessages_def popLastUserTurn_pushed Let_def)


lemma sendMessage_blocklist:
  "blockedUserContents (snd (sendMessage st message outcome)) = blockedUserContents st \<or>
   blockedUserContents (snd (sendMessage st message outcome)) =
     rememberBlockedUser (blockedUserContents st) message"
  by (cases outcome) (simp_all add: sendMessage_def Let_def)

lemma sendMessage_invariant:
  assumes "distinct (blockedUserContents st)" and "length (blockedUserContents st) \<le> 20"
  shows "distinct (blockedUserContents (snd (sendMessage st message outcome))) \<and>
         length (blockedUserContents (snd (sendMessage st message outcome))) \<le> 20"
  using sendMessage_blocklist [of st message outcome] remember_invariant [OF assms, of message] assms
  by auto

lemma run_session_invariant:
  "distinct (blockedUserContents st) \<Longrightarrow> length (blockedUserContents st) \<le> 20 \<Longrightarrow>
   distinct (blockedUserContents (run_session st turns)) \<and>
   length (blockedUserContents (run_session st turns)) \<le> 20"
proof (induction turns arbitrary: st)
  case Nil
  then show ?case by simp
next
  case (Cons turn turns)
  obtain message outcome where t: "turn = (message, outcome)" by (cases turn)
  from sendMessage_invariant [OF Cons.prems, of message outcome] Cons.IH t
  show ?case by simp
qed


lemma twenty_texts_facts:
  "distinct twenty_texts" "length twenty_texts = 20" "[] \<notin> set twenty_texts"
  "''bad'' \<notin> set twenty_texts"
  by (simp_all add: twenty_texts_def)




lemma twenty_four_texts_facts:
  "distinct twenty_four_texts" "[] \<notin> set twenty_four_texts" "length twenty_four_texts = 24"
  by (simp_all add: twenty_four_texts_def)

lemma is_prompt_blocked_elim:
  "is_prompt_blocked outcome \<Longrightarrow> \<exists>res. outcome = NotOk res \<and> wasPromptBlocked (mapError res)"
  by (cases outcome) (simp_all add: is_prompt_blocked_def)



lemma remember_no_empty: "[] \<notin> set bl \<Longrightarrow> [] \<notin> set (rememberBlockedUser bl t)"
  by (cases bl) (auto simp: rememberBlockedUser_def Let_def)

lemma run_session_no_empty:
  "[] \<notin> set (blockedUserContents st) \<Longrightarrow> [] \<notin> set (blockedUserContents (run_session st turns))"
proof (induction turns arbitrary: st)
  case Nil
  then show ?case by simp
next
  case (Cons turn turns)
  obtain message outcome where t: "turn = (message, outcome)" by (cases turn)
  from sendMessage_blocklist [of st message outcome] remember_no_empty [OF Cons.prems, of message]
    Cons.prems
  have "[] \<notin> set (blockedUserContents (snd (sendMessage st message outcome)))" by auto
  from Cons.IH [OF this] t show ?case by simp
qed

lemma remember_appends:
  "t \<notin> set bl \<Longrightarrow> t \<noteq> [] \<Longrightarrow> length bl < 20 \<Longrightarrow> rememberBlockedUser bl t = bl @ [t]"
  by (simp add: remember_new)

lemma run_all_blocked:
  "\<not> isProcessing st \<Longrightarrow> \<forall>turn\<in>set turns. fst turn \<noteq> [] \<and> is_prompt_blocked (snd turn) \<Longrightarrow>
   blockedUserContents (run_session st turns) =
     foldl rememberBlockedUser (blockedUserContents st) (map fst turns)"
proof (induction turns arbitrary: st)
  case Nil
  then show ?case by simp
next
  case (Cons turn turns)
  obtain message outcome where t: "turn = (message, outcome)" by (cases turn)
  with Cons.prems(2) have m: "message \<noteq> []" and b: "is_prompt_blocked outcome" by auto
  from is_prompt_blocked_elim [OF b] obtain res
    where o: "outcome = NotOk res" and w: "wasPromptBlocked (mapError res)" by blast
  let ?st = "snd (sendMessage st message outcome)"
  have s: "?st = st\<lparr>lastSentUserText := message,
         blockedUserContents := rememberBlockedUser (blockedUserContents st) message\<rparr>"
    by (simp add: o sendMessage_prompt_blocked [OF m Cons.prems(1) w])
  then have "\<not> isProcessing ?st" using Cons.prems(1) by simp
  from Cons.IH [OF this] Cons.prems(2) s t show ?case by simp
qed







lemma prompt_blocked_reply_blocked: "is_prompt_blocked prompt_blocked_reply"
  by (simp add: is_prompt_blocked_def prompt_blocked_reply_def mapError_prompt_blocked_reply)

lemma blocked_turns_facts:
  "map fst (blocked_turns ts) = ts" "length (blocked_turns ts) = length ts"
  "[] \<notin> set ts \<Longrightarrow>
     \<forall>turn\<in>set (blocked_turns ts). fst turn \<noteq> [] \<and> is_prompt_blocked (snd turn)"
  by (auto simp: blocked_turns_def comp_def prompt_blocked_reply_blocked)

lemma nineteen_texts_facts:
  "distinct nineteen_texts" "length nineteen_texts = 19" "[] \<notin> set nineteen_texts"
  "''bad'' \<notin> set nineteen_texts" "''hi'' \<notin> set nineteen_texts"
  by (simp_all add: nineteen_texts_def)


section \<open>The claims about the classifier and the request handler\<close>

text \<open>
  Claim C4. \<open>parseGatewayError\<close> is a total function of the body: no exception leaves
  it. A body that is \<^verbatim>\<open>null\<close> or not an object gives the empty result. Otherwise the
  shapes are tried in order: an \<^verbatim>\<open>error\<close> field that is a non-empty array whose
  element 0 has \<^verbatim>\<open>typeof\<close> \<^verbatim>\<open>"object"\<close>, then an \<^verbatim>\<open>errors\<close> field of that shape (the
  result takes \<^verbatim>\<open>code\<close> and \<^verbatim>\<open>message\<close> from element 0, and is empty when reading them
  throws, which is when element 0 is \<^verbatim>\<open>null\<close>), then a string \<^verbatim>\<open>error\<close>, a string
  \<^verbatim>\<open>message\<close>, a string \<^verbatim>\<open>detail\<close> (the result has that message and no code); when no
  shape matches the result is empty.
\<close>

theorem parseGatewayError_shapes:
  "(body = JNull \<or> \<not> typeof_object body \<longrightarrow> parseGatewayError body = no_error_info) \<and>
   (object_array_field body ''error'' \<longrightarrow>
      (\<exists>e es. get_prop body ''error'' = Some (JArr (e # es)) \<and>
         parseGatewayError body =
           (if e = JNull then no_error_info
            else \<lparr>err_code = get_prop e ''code'', err_message = get_prop e ''message''\<rparr>))) \<and>
   (\<not> object_array_field body ''error'' \<and> object_array_field body ''errors'' \<longrightarrow>
      (\<exists>e es. get_prop body ''errors'' = Some (JArr (e # es)) \<and>
         parseGatewayError body =
           (if e = JNull then no_error_info
            else \<lparr>err_code = get_prop e ''code'', err_message = get_prop e ''message''\<rparr>))) \<and>
   (\<not> object_array_field body ''error'' \<and> \<not> object_array_field body ''errors'' \<longrightarrow>
      (is_string_field body ''error'' \<longrightarrow>
         parseGatewayError body = \<lparr>err_code = None, err_message = get_prop body ''error''\<rparr>) \<and>
      (\<not> is_string_field body ''error'' \<and> is_string_field body ''message'' \<longrightarrow>
         parseGatewayError body = \<lparr>err_code = None, err_message = get_prop body ''message''\<rparr>) \<and>
      (\<not> is_string_field body ''error'' \<and> \<not> is_string_field body ''message'' \<and>
       is_string_field body ''detail'' \<longrightarrow>
         parseGatewayError body = \<lparr>err_code = None, err_message = get_prop body ''detail''\<rparr>) \<and>
      (\<not> is_string_field body ''error'' \<and> \<not> is_string_field body ''message'' \<and>
       \<not> is_string_field body ''detail'' \<longrightarrow>
         parseGatewayError body = no_error_info))"
proof (intro conjI impI)
  assume "body = JNull \<or> \<not> typeof_object body"
  then show "parseGatewayError body = no_error_info" by (rule parse_not_object)
next
  assume "object_array_field body ''error''"
  then show "\<exists>e es. get_prop body ''error'' = Some (JArr (e # es)) \<and>
         parseGatewayError body =
           (if e = JNull then no_error_info
            else \<lparr>err_code = get_prop e ''code'', err_message = get_prop e ''message''\<rparr>)"
    by (rule parse_shape_error_array)
next
  assume "\<not> object_array_field body ''error'' \<and> object_array_field body ''errors''"
  then show "\<exists>e es. get_prop body ''errors'' = Some (JArr (e # es)) \<and>
         parseGatewayError body =
           (if e = JNull then no_error_info
            else \<lparr>err_code = get_prop e ''code'', err_message = get_prop e ''message''\<rparr>)"
    using parse_shape_errors_array [of body] by blast
next
  assume a: "\<not> object_array_field body ''error'' \<and> \<not> object_array_field body ''errors''"
    and s: "is_string_field body ''error''"
  from a s show "parseGatewayError body = \<lparr>err_code = None, err_message = get_prop body ''error''\<rparr>"
    by (intro parse_string) simp_all
next
  assume a: "\<not> object_array_field body ''error'' \<and> \<not> object_array_field body ''errors''"
    and s: "\<not> is_string_field body ''error'' \<and> is_string_field body ''message''"
  from a s show "parseGatewayError body = \<lparr>err_code = None, err_message = get_prop body ''message''\<rparr>"
    by (intro parse_string) simp_all
next
  assume a: "\<not> object_array_field body ''error'' \<and> \<not> object_array_field body ''errors''"
    and s: "\<not> is_string_field body ''error'' \<and> \<not> is_string_field body ''message'' \<and>
       is_string_field body ''detail''"
  from a s show "parseGatewayError body = \<lparr>err_code = None, err_message = get_prop body ''detail''\<rparr>"
    by (intro parse_string) simp_all
next
  assume a: "\<not> object_array_field body ''error'' \<and> \<not> object_array_field body ''errors''"
    and s: "\<not> is_string_field body ''error'' \<and> \<not> is_string_field body ''message'' \<and>
       \<not> is_string_field body ''detail''"
  from a s show "parseGatewayError body = no_error_info"
    by (intro parse_none) simp_all
qed

theorem parseGatewayError_shapes_witness:
  "parseGatewayError body_code_2016 =
     \<lparr>err_code = Some (JNum 2016), err_message = Some (JStr ''m'')\<rparr> \<and>
   parseGatewayError (JObj [(''errors'', JArr [JObj [(''code'', JNum 2017)]])]) =
     \<lparr>err_code = Some (JNum 2017), err_message = None\<rparr> \<and>
   parseGatewayError (JObj [(''error'', JStr ''e''), (''message'', JStr ''oops'')]) =
     \<lparr>err_code = None, err_message = Some (JStr ''e'')\<rparr> \<and>
   parseGatewayError body_message_oops = \<lparr>err_code = None, err_message = Some (JStr ''oops'')\<rparr> \<and>
   parseGatewayError (JObj [(''detail'', JStr ''d'')]) =
     \<lparr>err_code = None, err_message = Some (JStr ''d'')\<rparr> \<and>
   parseGatewayError (JObj []) = no_error_info \<and>
   parseGatewayError JNull = no_error_info \<and>
   parseGatewayError (JStr ''text'') = no_error_info \<and>
   object_array_field body_null_element ''error'' \<and>
   parseGatewayError body_null_element = no_error_info"
proof -
  note shape_defs = object_array_field_def is_string_field_def
  have "object_array_field body_code_2016 ''error''"
    by (simp add: shape_defs body_code_2016_def)
  with parseGatewayError_shapes [of body_code_2016]
  have 1: "parseGatewayError body_code_2016 =
     \<lparr>err_code = Some (JNum 2016), err_message = Some (JStr ''m'')\<rparr>"
    by (simp add: body_code_2016_def)
  let ?b2 = "JObj [(''errors'', JArr [JObj [(''code'', JNum 2017)]])]"
  have "\<not> object_array_field ?b2 ''error''" "object_array_field ?b2 ''errors''"
    by (simp_all add: shape_defs)
  with parseGatewayError_shapes [of ?b2]
  have 2: "parseGatewayError ?b2 = \<lparr>err_code = Some (JNum 2017), err_message = None\<rparr>"
    by simp
  let ?b3 = "JObj [(''error'', JStr ''e''), (''message'', JStr ''oops'')]"
  have "\<not> object_array_field ?b3 ''error''" "\<not> object_array_field ?b3 ''errors''"
    "is_string_field ?b3 ''error''"
    by (simp_all add: shape_defs)
  with parseGatewayError_shapes [of ?b3]
  have 3: "parseGatewayError ?b3 = \<lparr>err_code = None, err_message = Some (JStr ''e'')\<rparr>"
    by simp
  have "\<not> object_array_field body_message_oops ''error''"
    "\<not> object_array_field body_message_oops ''errors''"
    "\<not> is_string_field body_message_oops ''error''"
    "is_string_field body_message_oops ''message''"
    by (simp_all add: shape_defs body_message_oops_def)
  with parseGatewayError_shapes [of body_message_oops]
  have 4: "parseGatewayError body_message_oops =
     \<lparr>err_code = None, err_message = Some (JStr ''oops'')\<rparr>"
    by (simp add: body_message_oops_def)
  let ?b5 = "JObj [(''detail'', JStr ''d'')]"
  have "\<not> object_array_field ?b5 ''error''" "\<not> object_array_field ?b5 ''errors''"
    "\<not> is_string_field ?b5 ''error''" "\<not> is_string_field ?b5 ''message''"
    "is_string_field ?b5 ''detail''"
    by (simp_all add: shape_defs)
  with parseGatewayError_shapes [of ?b5]
  have 5: "parseGatewayError ?b5 = \<lparr>err_code = None, err_message = Some (JStr ''d'')\<rparr>"
    by simp
  have "\<not> object_array_field (JObj []) ''error''"
    "\<not> object_array_field (JObj []) ''errors''"
    "\<not> is_string_field (JObj []) ''error''"
    "\<not> is_string_field (JObj []) ''message''"
    "\<not> is_string_field (JObj []) ''detail''"
    by (simp_all add: shape_defs)
  with parseGatewayError_shapes [of "JObj []"]
  have 6: "parseGatewayError (JObj []) = no_error_info" by blast
  from parseGatewayError_shapes [of JNull]
  have 7: "parseGatewayError JNull = no_error_info" by blast
  from parseGatewayError_shapes [of "JStr ''text''"]
  have 8: "parseGatewayError (JStr ''text'') = no_error_info" by simp
  have 9: "object_array_field body_null_element ''error''"
    by (simp add: shape_defs body_null_element_def)
  with parseGatewayError_shapes [of body_null_element]
  have 10: "parseGatewayError body_null_element = no_error_info"
    by (simp add: body_null_element_def)
  from 1 2 3 4 5 6 7 8 9 10 show ?thesis by blast
qed

text \<open>
  Claim C5, as amended. When the model's response is not ok and its status is one a
  response with a body can be constructed with (200..599, and none of 204, 205,
  304), the handler answers with the upstream status and a body
  \<^verbatim>\<open>{ error: userMessage }\<close>, where \<open>userMessage\<close> is the prompt-blocked sentence for the
  classified code 2016, the response-blocked sentence for 2017, otherwise a non-empty
  classified message string taken as it is, and otherwise the generic sentence. For
  any other upstream status the constructor throws and the handler answers with the
  HTTP 500 response. \<open>g\<close> is the classification of the failure body, empty when the
  body is not JSON.
\<close>

theorem failure_status_and_body:
  assumes "buildModelMessages (array_or_empty raw ''messages'')
      (set (string_members (array_or_empty raw ''blockedUserContents''))) = Inr mm"
    and "ai mm = AiResponds r" and "\<not> ok r"
    and "g = (case json_result r of Inl e \<Rightarrow> no_error_info | Inr body \<Rightarrow> parseGatewayError body)"
  shows "(200 \<le> status r \<and> status r \<le> 599 \<and> \<not> null_body_status (status r) \<longrightarrow>
    http_status (handleChatRequest (Inr raw) ai) = status r \<and>
    (\<exists>userMessage.
       http_body (handleChatRequest (Inr raw) ai) = JsonBody (JObj [(''error'', JStr userMessage)]) \<and>
       (err_code g = Some (JNum 2016) \<longrightarrow> userMessage = ''Prompt was blocked by guardrails.'') \<and>
       (err_code g = Some (JNum 2017) \<longrightarrow> userMessage = ''Response was blocked by guardrails.'') \<and>
       (err_code g \<noteq> Some (JNum 2016) \<and> err_code g \<noteq> Some (JNum 2017) \<longrightarrow>
          (\<forall>s. err_message g = Some (JStr s) \<and> s \<noteq> [] \<longrightarrow> userMessage = s) \<and>
          ((\<forall>s. err_message g = Some (JStr s) \<longrightarrow> s = []) \<longrightarrow>
             userMessage = ''An error occurred while processing your request.'')))) \<and>
    (\<not> (200 \<le> status r \<and> status r \<le> 599 \<and> \<not> null_body_status (status r)) \<longrightarrow>
       handleChatRequest (Inr raw) ai = internal_error_response)"
proof (intro conjI impI)
  assume c: "200 \<le> status r \<and> status r \<le> 599 \<and> \<not> null_body_status (status r)"
  let ?u = "failure_user_message (json_result r)"
  have h: "handleChatRequest (Inr raw) ai =
      \<lparr>http_status = status r, content_type = ''application/json'',
       http_body = JsonBody (JObj [(''error'', JStr ?u)])\<rparr>"
    using assms(1-3) c
    by (simp add: handleChatRequest_after_model after_model_def failure_response_def
        new_response_def)
  note u = failure_user_message_cases [OF assms(4)]
  show "http_status (handleChatRequest (Inr raw) ai) = status r" by (simp add: h)
  have "http_body (handleChatRequest (Inr raw) ai) = JsonBody (JObj [(''error'', JStr ?u)])"
    by (simp add: h)
  moreover have "err_code g = Some (JNum 2016) \<longrightarrow> ?u = ''Prompt was blocked by guardrails.''"
    by (simp add: u)
  moreover have "err_code g = Some (JNum 2017) \<longrightarrow> ?u = ''Response was blocked by guardrails.''"
    by (simp add: u)
  moreover have "err_code g \<noteq> Some (JNum 2016) \<and> err_code g \<noteq> Some (JNum 2017) \<longrightarrow>
          (\<forall>s. err_message g = Some (JStr s) \<and> s \<noteq> [] \<longrightarrow> ?u = s) \<and>
          ((\<forall>s. err_message g = Some (JStr s) \<longrightarrow> s = []) \<longrightarrow>
             ?u = ''An error occurred while processing your request.'')"
    by (auto simp: u generic_error_text_def split: option.splits json.splits)
  ultimately show "\<exists>userMessage.
       http_body (handleChatRequest (Inr raw) ai) = JsonBody (JObj [(''error'', JStr userMessage)]) \<and>
       (err_code g = Some (JNum 2016) \<longrightarrow> userMessage = ''Prompt was blocked by guardrails.'') \<and>
       (err_code g = Some (JNum 2017) \<longrightarrow> userMessage = ''Response was blocked by guardrails.'') \<and>
       (err_code g \<noteq> Some (JNum 2016) \<and> err_code g \<noteq> Some (JNum 2017) \<longrightarrow>
          (\<forall>s. err_message g = Some (JStr s) \<and> s \<noteq> [] \<longrightarrow> userMessage = s) \<and>
          ((\<forall>s. err_message g = Some (JStr s) \<longrightarrow> s = []) \<longrightarrow>
             userMessage = ''An error occurred while processing your request.''))"
    by blast
next
  assume "\<not> (200 \<le> status r \<and> status r \<le> 599 \<and> \<not> null_body_status (status r))"
  then have "\<exists>e. failure_response r = Inl e"
    by (auto simp: failure_response_def new_response_def)
  then show "handleChatRequest (Inr raw) ai = internal_error_response"
    using assms(1-3) by (auto simp: handleChatRequest_after_model after_model_def)
qed

theorem failure_status_and_body_witness:
  "buildModelMessages (array_or_empty (JObj []) ''messages'')
      (set (string_members (array_or_empty (JObj []) ''blockedUserContents''))) =
     Inr [system_message] \<and>
   \<not> ok guardrail_response \<and> \<not> ok plain_failure_response \<and>
   \<not> ok unreadable_failure_response \<and> \<not> ok not_modified_response \<and>
   \<not> null_body_status 424 \<and> \<not> null_body_status 500 \<and> \<not> null_body_status 502 \<and>
   null_body_status 304 \<and>
   handleChatRequest (Inr (JObj [])) (responding_model guardrail_response) =
     \<lparr>http_status = 424, content_type = ''application/json'',
      http_body = JsonBody (JObj [(''error'', JStr ''Prompt was blocked by guardrails.'')])\<rparr> \<and>
   handleChatRequest (Inr (JObj [])) (responding_model plain_failure_response) =
     \<lparr>http_status = 500, content_type = ''application/json'',
      http_body = JsonBody (JObj [(''error'', JStr ''oops'')])\<rparr> \<and>
   handleChatRequest (Inr (JObj [])) (responding_model unreadable_failure_response) =
     \<lparr>http_status = 502, content_type = ''application/json'',
      http_body =
        JsonBody (JObj [(''error'', JStr ''An error occurred while processing your request.'')])\<rparr> \<and>
   handleChatRequest (Inr (JObj [])) (responding_model not_modified_response) =
     internal_error_response"
proof -
  have m: "buildModelMessages (array_or_empty (JObj []) ''messages'')
      (set (string_members (array_or_empty (JObj []) ''blockedUserContents''))) =
     Inr [system_message]"
    by (simp add: array_or_empty_def buildModelMessages_empty)
  have r: "responding_model r [system_message] = AiResponds r" for r
    by (simp add: responding_model_def)
  have n: "\<not> ok guardrail_response" "\<not> ok plain_failure_response"
    "\<not> ok unreadable_failure_response" "\<not> ok not_modified_response"
    by (simp_all add: guardrail_response_def plain_failure_response_def
        unreadable_failure_response_def not_modified_response_def)
  have s: "\<not> null_body_status 424" "\<not> null_body_status 500" "\<not> null_body_status 502"
    "null_body_status 304"
    by (simp_all add: null_body_status_def)
  have c: "handleChatRequest (Inr (JObj [])) (responding_model r) =
      \<lparr>http_status = http_status (handleChatRequest (Inr (JObj [])) (responding_model r)),
       content_type = ''application/json'',
       http_body = http_body (handleChatRequest (Inr (JObj [])) (responding_model r))\<rparr>"
    if "\<not> ok r" "200 \<le> status r" "status r \<le> 599" "\<not> null_body_status (status r)" for r
    using that
    by (simp add: handleChatRequest_after_model [OF m] r after_model_def failure_response_def
        new_response_def)
  have p1: "parseGatewayError body_code_2016 =
     \<lparr>err_code = Some (JNum 2016), err_message = Some (JStr ''m'')\<rparr>"
    by (simp add: parseGatewayError_def parseGatewayError_try_def body_code_2016_def
        array_field_def first_object_def element_fields_def)
  have p2: "parseGatewayError body_message_oops =
     \<lparr>err_code = None, err_message = Some (JStr ''oops'')\<rparr>"
    by (simp add: parseGatewayError_def parseGatewayError_try_def body_message_oops_def
        array_field_def first_object_def string_field_def message_only_def)
  have g: "status guardrail_response = 424" "status plain_failure_response = 500"
    "status unreadable_failure_response = 502" "status not_modified_response = 304"
    by (simp_all add: guardrail_response_def plain_failure_response_def
        unreadable_failure_response_def not_modified_response_def)
  from failure_status_and_body [where ai = "responding_model guardrail_response",
      OF m r n(1) refl] p1 s g
  have 1: "http_status (handleChatRequest (Inr (JObj [])) (responding_model guardrail_response)) = 424 \<and>
   http_body (handleChatRequest (Inr (JObj [])) (responding_model guardrail_response)) =
     JsonBody (JObj [(''error'', JStr ''Prompt was blocked by guardrails.'')])"
    by (auto simp: guardrail_response_def)
  from failure_status_and_body [where ai = "responding_model plain_failure_response",
      OF m r n(2) refl] p2 s g
  have 2: "http_status (handleChatRequest (Inr (JObj [])) (responding_model plain_failure_response)) = 500 \<and>
   http_body (handleChatRequest (Inr (JObj [])) (responding_model plain_failure_response)) =
     JsonBody (JObj [(''error'', JStr ''oops'')])"
    by (auto simp: plain_failure_response_def)
  from failure_status_and_body [where ai = "responding_model unreadable_failure_response",
      OF m r n(3) refl] s g
  have 3: "http_status (handleChatRequest (Inr (JObj [])) (responding_model unreadable_failure_response)) = 502 \<and>
   http_body (handleChatRequest (Inr (JObj [])) (responding_model unreadable_failure_response)) =
     JsonBody (JObj [(''error'', JStr ''An error occurred while processing your request.'')])"
    by (auto simp: unreadable_failure_response_def no_error_info_def)
  from failure_status_and_body [where ai = "responding_model not_modified_response",
      OF m r n(4) refl] s g
  have 4: "handleChatRequest (Inr (JObj [])) (responding_model not_modified_response) =
     internal_error_response"
    by simp
  have c1: "handleChatRequest (Inr (JObj [])) (responding_model guardrail_response) =
     \<lparr>http_status = 424, content_type = ''application/json'',
      http_body = JsonBody (JObj [(''error'', JStr ''Prompt was blocked by guardrails.'')])\<rparr>"
    using c [OF n(1)] 1 s g by simp
  have c2: "handleChatRequest (Inr (JObj [])) (responding_model plain_failure_response) =
     \<lparr>http_status = 500, content_type = ''application/json'',
      http_body = JsonBody (JObj [(''error'', JStr ''oops'')])\<rparr>"
    using c [OF n(2)] 2 s g by simp
  have c3: "handleChatRequest (Inr (JObj [])) (responding_model unreadable_failure_response) =
     \<lparr>http_status = 502, content_type = ''application/json'',
      http_body =
        JsonBody (JObj [(''error'', JStr ''An error occurred while processing your request.'')])\<rparr>"
    using c [OF n(3)] 3 s g by simp
  from c1 c2 c3 4 m n s show ?thesis by blast
qed

text \<open>
  The claim C5 as first stated fails for an upstream status that a response with a
  body cannot carry: a model response that is not ok with status 304 is answered with
  HTTP 500 and \<^verbatim>\<open>Failed to process request\<close>, not with status 304.
\<close>

theorem failure_status_counterexample:
  "\<not> ok not_modified_response \<and> status not_modified_response = 304 \<and>
   handleChatRequest (Inr (JObj [])) (responding_model not_modified_response) =
     \<lparr>http_status = 500, content_type = ''application/json'',
      http_body = JsonBody (JObj [(''error'', JStr ''Failed to process request'')])\<rparr>"
  by (simp add: handleChatRequest_def array_or_empty_def buildModelMessages_empty
      responding_model_def after_model_def failure_response_def new_response_def
      null_body_status_def not_modified_response_def internal_error_response_def)




section \<open>The claims about the client controller\<close>




text \<open>
  Claim C7. In every state of a session the BlockList holds distinct texts, at most
  20 of them, and \<open>rememberBlockedUser\<close> keeps it so; inserting a value already
  present changes nothing; a new value is appended, and when that exceeds the
  capacity exactly the oldest entry is dropped; so inserting distinct values one
  after the other leaves the last 20 of them, as does a session in which the sends
  of distinct texts are each answered prompt-blocked. The values are those the
  controller passes: the text of a send, which is never empty (\<open>sendMessage\<close> returns
  at once on an empty text), and the BlockList never holds the empty text.
\<close>

theorem blocklist_bounded_fifo:
  "(\<forall>turns. distinct (blockedUserContents (run_session initial_client turns)) \<and>
            length (blockedUserContents (run_session initial_client turns)) \<le> 20 \<and>
            [] \<notin> set (blockedUserContents (run_session initial_client turns))) \<and>
   (distinct bl \<and> length bl \<le> 20 \<longrightarrow>
      distinct (rememberBlockedUser bl t) \<and> length (rememberBlockedUser bl t) \<le> 20) \<and>
   (t \<in> set bl \<longrightarrow> rememberBlockedUser bl t = bl) \<and>
   (t \<notin> set bl \<and> t \<noteq> [] \<and> length bl < 20 \<longrightarrow> rememberBlockedUser bl t = bl @ [t]) \<and>
   (t \<notin> set bl \<and> t \<noteq> [] \<and> length bl = 20 \<longrightarrow> rememberBlockedUser bl t = tl bl @ [t]) \<and>
   (distinct ts \<and> [] \<notin> set ts \<longrightarrow>
      foldl rememberBlockedUser [] ts = drop (length ts - 20) ts) \<and>
   (\<forall>turns. distinct (map fst turns) \<and>
        (\<forall>turn\<in>set turns. fst turn \<noteq> [] \<and> is_prompt_blocked (snd turn)) \<longrightarrow>
        blockedUserContents (run_session initial_client turns) =
          drop (length turns - 20) (map fst turns))"
proof -
  have i: "distinct (blockedUserContents initial_client)"
    "length (blockedUserContents initial_client) \<le> 20"
    "[] \<notin> set (blockedUserContents initial_client)"
    "\<not> isProcessing initial_client" "blockedUserContents initial_client = []"
    by (simp_all add: initial_client_def)
  note 1 = run_session_invariant [OF i(1,2)] run_session_no_empty [OF i(3)]
  have 6: "distinct ts \<and> [] \<notin> set ts \<longrightarrow>
      foldl rememberBlockedUser [] ts = drop (length ts - 20) ts" for ts
    using foldl_remember [of "[]" ts] by simp
  have 7: "\<forall>turns. distinct (map fst turns) \<and>
        (\<forall>turn\<in>set turns. fst turn \<noteq> [] \<and> is_prompt_blocked (snd turn)) \<longrightarrow>
        blockedUserContents (run_session initial_client turns) =
          drop (length turns - 20) (map fst turns)"
  proof (intro allI impI)
    fix turns :: "(string \<times> fetch_outcome) list"
    assume a: "distinct (map fst turns) \<and>
        (\<forall>turn\<in>set turns. fst turn \<noteq> [] \<and> is_prompt_blocked (snd turn))"
    then have e: "[] \<notin> set (map fst turns)" by auto
    from a run_all_blocked [OF i(4), of turns]
    have "blockedUserContents (run_session initial_client turns) =
        foldl rememberBlockedUser [] (map fst turns)" by (simp add: i(5))
    with 6 [of "map fst turns"] a e
    show "blockedUserContents (run_session initial_client turns) =
          drop (length turns - 20) (map fst turns)" by simp
  qed
  from 1 6 [of ts] 7 show ?thesis
    by (simp add: remember_invariant remember_present remember_evicts remember_appends)
qed

theorem blocklist_bounded_fifo_witness:
  "distinct twenty_four_texts \<and> [] \<notin> set twenty_four_texts \<and>
   foldl rememberBlockedUser [] twenty_four_texts = drop 4 twenty_four_texts \<and>
   blockedUserContents (run_session initial_client (blocked_turns twenty_four_texts)) =
     drop 4 twenty_four_texts \<and>
   distinct twenty_texts \<and> length twenty_texts \<le> 20 \<and>
   rememberBlockedUser twenty_texts ''bad'' = tl twenty_texts @ [''bad''] \<and>
   rememberBlockedUser twenty_texts ''p7'' = twenty_texts \<and>
   rememberBlockedUser nineteen_texts ''bad'' = nineteen_texts @ [''bad''] \<and>
   length (blockedUserContents (run_session initial_client (blocked_turns twenty_texts))) \<le> 20"
proof -
  note t = blocklist_bounded_fifo
  from t [of "[]" "[]" twenty_four_texts] twenty_four_texts_facts
  have 1: "foldl rememberBlockedUser [] twenty_four_texts = drop 4 twenty_four_texts" by simp
  from t [of twenty_texts "''bad''" "[]"] twenty_texts_facts
  have 2: "rememberBlockedUser twenty_texts ''bad'' = tl twenty_texts @ [''bad'']" by simp
  have "''p7'' \<in> set twenty_texts" by (simp add: twenty_texts_def)
  with t [of twenty_texts "''p7''" "[]"]
  have 3: "rememberBlockedUser twenty_texts ''p7'' = twenty_texts" by simp
  from t [of "[]" "[]" "[]"]
  have 4: "length (blockedUserContents (run_session initial_client (blocked_turns twenty_texts))) \<le> 20"
    by blast
  from t [of nineteen_texts "''bad''" "[]"] nineteen_texts_facts
  have 5: "rememberBlockedUser nineteen_texts ''bad'' = nineteen_texts @ [''bad'']" by simp
  from t [of "[]" "[]" "[]"]
  have "distinct (map fst (blocked_turns twenty_four_texts)) \<and>
        (\<forall>turn\<in>set (blocked_turns twenty_four_texts).
            fst turn \<noteq> [] \<and> is_prompt_blocked (snd turn)) \<longrightarrow>
        blockedUserContents (run_session initial_client (blocked_turns twenty_four_texts)) =
          drop (length (blocked_turns twenty_four_texts) - 20)
            (map fst (blocked_turns twenty_four_texts))"
    by blast
  with blocked_turns_facts(3) [OF twenty_four_texts_facts(2)] twenty_four_texts_facts
  have 6: "blockedUserContents (run_session initial_client (blocked_turns twenty_four_texts)) =
     drop 4 twenty_four_texts"
    by (simp add: blocked_turns_facts)
  from 1 2 3 4 5 6 twenty_four_texts_facts twenty_texts_facts show ?thesis by simp
qed

end
